theory Spec2Isabelle
  imports Complex_Main "HOL-Library.Word" "HOL-Library.Log_Nat"
begin

section \<open>HelloImageProject: bilateral denoise and unsharp mask\<close>

text \<open>
  The program (\<^verbatim>\<open>main.py\<close>) reads one colour photograph, denoises it with OpenCV's
  bilateral filter, sharpens it with an unsharp mask written in NumPy arithmetic, and
  writes the result as a PNG file. This theory embeds its three functions,
  \<^verbatim>\<open>bilateral_denoise\<close>, \<^verbatim>\<open>unsharp_mask\<close> and \<^verbatim>\<open>process_image\<close>, and its
  \<^verbatim>\<open>__main__\<close> block, together with the parts of NumPy and of Python's \<^verbatim>\<open>os.path\<close>
  that they call.

  OpenCV is outside the repository. What its decoder, encoder and filters compute
  enters as the fields of a record \<open>cvlib\<close>, over which every definition and theorem
  is parametric. The four OpenCV calls of the program are definitions over that
  record, each with a note on what it takes from OpenCV's contract.
\<close>

subsection \<open>Python exceptions\<close>

datatype pyerr =
    FileNotFoundError string
  | ValueError string
  | OSError string
  | CvError string

subsection \<open>32-bit floating point (numpy.float32)\<close>

text \<open>
  A floating-point value is a rational number, an infinity or NaN. The sign of zero
  is dropped: the program never divides, and clipping and the conversion to an
  integer treat both zeros alike. \<open>round32\<close> rounds a rational to the nearest
  binary32 value, ties to the even significand: 24 significant bits, smallest
  quantum \<open>2^-149\<close>, overflow to an infinity from \<open>2^128\<close> on.
\<close>

datatype fp = Finite rat | PInf | NInf | NaN

definition pow2 :: "int \<Rightarrow> rat" where
  "pow2 e = (if 0 \<le> e then 2 ^ nat e else 1 / 2 ^ nat (- e))"

text \<open>\<open>ilog2 x\<close> is the integer \<open>e\<close> with \<open>2^e \<le> x < 2^(e+1)\<close>, for \<open>x > 0\<close>.\<close>

definition ilog2 :: "rat \<Rightarrow> int" where
  "ilog2 x = (if 1 \<le> x then bitlen \<lfloor>x\<rfloor> - 1 else - bitlen (\<lceil>1 / x\<rceil> - 1))"

definition round_half_even :: "rat \<Rightarrow> int" where
  "round_half_even x =
     (let f = \<lfloor>x\<rfloor>; d = x - of_int f
      in if d < 1 / 2 then f else if 1 / 2 < d then f + 1 else if even f then f else f + 1)"

definition round32 :: "rat \<Rightarrow> fp" where
  "round32 x =
     (if x = 0 then Finite 0
      else let e = max (ilog2 \<bar>x\<bar>) (- 126);
               u = pow2 (e - 23);
               r = of_int (round_half_even (x / u)) * u
           in if 2 ^ 128 \<le> \<bar>r\<bar> then (if 0 < x then PInf else NInf) else Finite r)"

text \<open>
  A Python number that meets a \<^verbatim>\<open>float32\<close> array does not widen the array: NumPy
  converts the number to \<^verbatim>\<open>float32\<close> and computes in \<^verbatim>\<open>float32\<close>. (NumPy 1 keeps
  \<^verbatim>\<open>float64\<close> for a number beyond the \<^verbatim>\<open>float32\<close> range; this is NumPy 2.)
\<close>

fun to_f32 :: "fp \<Rightarrow> fp" where
  "to_f32 (Finite x) = round32 x"
| "to_f32 v = v"

fun fneg :: "fp \<Rightarrow> fp" where
  "fneg (Finite x) = Finite (- x)"
| "fneg PInf = NInf"
| "fneg NInf = PInf"
| "fneg NaN = NaN"

fun fadd :: "fp \<Rightarrow> fp \<Rightarrow> fp" where
  "fadd (Finite x) (Finite y) = round32 (x + y)"
| "fadd NaN _ = NaN"
| "fadd _ NaN = NaN"
| "fadd PInf NInf = NaN"
| "fadd NInf PInf = NaN"
| "fadd PInf _ = PInf"
| "fadd NInf _ = NInf"
| "fadd _ PInf = PInf"
| "fadd _ NInf = NInf"

definition fsub :: "fp \<Rightarrow> fp \<Rightarrow> fp" where
  "fsub x y = fadd x (fneg y)"

definition inf_times :: "bool \<Rightarrow> rat \<Rightarrow> fp" where
  "inf_times positive y =
     (if y = 0 then NaN else if (0 < y) = positive then PInf else NInf)"

fun fmul :: "fp \<Rightarrow> fp \<Rightarrow> fp" where
  "fmul (Finite x) (Finite y) = round32 (x * y)"
| "fmul NaN _ = NaN"
| "fmul _ NaN = NaN"
| "fmul PInf (Finite y) = inf_times True y"
| "fmul NInf (Finite y) = inf_times False y"
| "fmul (Finite x) PInf = inf_times True x"
| "fmul (Finite x) NInf = inf_times False x"
| "fmul PInf PInf = PInf"
| "fmul NInf NInf = PInf"
| "fmul PInf NInf = NInf"
| "fmul NInf PInf = NInf"

text \<open>\<^verbatim>\<open>numpy.clip\<close> on one element: NaN stays NaN.\<close>

fun fclip :: "rat \<Rightarrow> rat \<Rightarrow> fp \<Rightarrow> fp" where
  "fclip lo hi (Finite x) = Finite (min (max x lo) hi)"
| "fclip lo hi PInf = Finite hi"
| "fclip lo hi NInf = Finite lo"
| "fclip lo hi NaN = NaN"

type_synonym u8 = "8 word"

definition of_u8 :: "u8 \<Rightarrow> fp" where
  "of_u8 v = Finite (of_nat (unat v))"

text \<open>
  \<^verbatim>\<open>astype(numpy.uint8)\<close> on one element is C's conversion: the value is truncated
  towards zero. Where the truncated value does not fit (and for infinities and NaN) C
  leaves the result undefined; what the platform then yields is the parameter
  \<open>undef\<close>.
\<close>

definition trunc :: "rat \<Rightarrow> int" where
  "trunc x = (if 0 \<le> x then \<lfloor>x\<rfloor> else \<lceil>x\<rceil>)"

fun f32_to_u8 :: "(fp \<Rightarrow> u8) \<Rightarrow> fp \<Rightarrow> u8" where
  "f32_to_u8 undef (Finite x) =
     (if 0 \<le> trunc x \<and> trunc x \<le> 255 then word_of_int (trunc x) else undef (Finite x))"
| "f32_to_u8 undef v = undef v"

subsection \<open>Arrays (numpy.ndarray of shape (rows, cols, chans))\<close>

text \<open>An array is its shape and its elements in row-major order, channels interleaved.\<close>

record 'a ndarray =
  rows :: nat
  cols :: nat
  chans :: nat
  data :: "'a list"

definition shape :: "'a ndarray \<Rightarrow> nat \<times> nat \<times> nat" where
  "shape a = (rows a, cols a, chans a)"

definition well_shaped :: "'a ndarray \<Rightarrow> bool" where
  "well_shaped a = (length (data a) = rows a * cols a * chans a)"

text \<open>The element at row \<open>r\<close>, column \<open>c\<close>, channel \<open>k\<close>.\<close>

definition px :: "'a ndarray \<Rightarrow> nat \<Rightarrow> nat \<Rightarrow> nat \<Rightarrow> 'a" where
  "px a r c k = data a ! ((r * cols a + c) * chans a + k)"

definition amap :: "('a \<Rightarrow> 'b) \<Rightarrow> 'a ndarray \<Rightarrow> 'b ndarray" where
  "amap f a = \<lparr>rows = rows a, cols = cols a, chans = chans a, data = map f (data a)\<rparr>"

text \<open>
  An arithmetic operator on two arrays works element by element when the shapes are
  equal. For unequal shapes NumPy broadcasts or raises \<^verbatim>\<open>ValueError\<close>; broadcasting
  is not modelled, and the error stands for both.
\<close>

definition np_binop ::
  "('a \<Rightarrow> 'b \<Rightarrow> 'c) \<Rightarrow> 'a ndarray \<Rightarrow> 'b ndarray \<Rightarrow> pyerr + 'c ndarray" where
  "np_binop f a b =
     (if shape a = shape b
      then Inr \<lparr>rows = rows a, cols = cols a, chans = chans a,
                data = map2 f (data a) (data b)\<rparr>
      else Inl (ValueError ''operands could not be broadcast together''))"

definition astype_float32 :: "u8 ndarray \<Rightarrow> fp ndarray" where
  "astype_float32 a = amap of_u8 a"

definition np_subtract :: "fp ndarray \<Rightarrow> fp ndarray \<Rightarrow> pyerr + fp ndarray" where
  "np_subtract a b = np_binop fsub a b"

definition np_add :: "fp ndarray \<Rightarrow> fp ndarray \<Rightarrow> pyerr + fp ndarray" where
  "np_add a b = np_binop fadd a b"

text \<open>\<^verbatim>\<open>amount * mask\<close>, with a Python number on the left.\<close>

definition np_scalar_multiply :: "fp \<Rightarrow> fp ndarray \<Rightarrow> fp ndarray" where
  "np_scalar_multiply s a = amap (fmul (to_f32 s)) a"

definition np_clip :: "fp ndarray \<Rightarrow> rat \<Rightarrow> rat \<Rightarrow> fp ndarray" where
  "np_clip a lo hi = amap (fclip lo hi) a"

definition astype_uint8 :: "(fp \<Rightarrow> u8) \<Rightarrow> fp ndarray \<Rightarrow> u8 ndarray" where
  "astype_uint8 undef a = amap (f32_to_u8 undef) a"

subsection \<open>os.path (POSIX)\<close>

text \<open>
  The three functions of \<^verbatim>\<open>os.path\<close> that the program calls, after CPython's
  \<^verbatim>\<open>posixpath\<close>: the separator is the slash. \<^verbatim>\<open>str.rfind\<close> for one character gives
  the highest index, or \<open>-1\<close>.
\<close>

fun rfind :: "char \<Rightarrow> string \<Rightarrow> int" where
  "rfind c [] = - 1"
| "rfind c (x # xs) =
     (let r = rfind c xs in if 0 \<le> r then r + 1 else if x = c then 0 else - 1)"

definition basename :: "string \<Rightarrow> string" where
  "basename p = drop (nat (rfind CHR ''/'' p + 1)) p"

text \<open>The loop of \<^verbatim>\<open>genericpath._splitext\<close> that skips the leading dots of the name.\<close>

function splitext_loop :: "string \<Rightarrow> nat \<Rightarrow> nat \<Rightarrow> (string \<times> string) option" where
  "splitext_loop p dotIndex filenameIndex =
     (if filenameIndex < dotIndex
      then (if p ! filenameIndex \<noteq> CHR ''.''
            then Some (take dotIndex p, drop dotIndex p)
            else splitext_loop p dotIndex (filenameIndex + 1))
      else None)"
  by pat_completeness auto
termination
  by (relation "measure (\<lambda>(p, dotIndex, filenameIndex). dotIndex - filenameIndex)") auto

definition splitext :: "string \<Rightarrow> string \<times> string" where
  "splitext p =
     (let sepIndex = rfind CHR ''/'' p;
          dotIndex = rfind CHR ''.'' p
      in if sepIndex < dotIndex
         then (case splitext_loop p (nat dotIndex) (nat (sepIndex + 1)) of
                 Some r \<Rightarrow> r
               | None \<Rightarrow> (p, []))
         else (p, []))"

text \<open>\<^verbatim>\<open>os.path.join\<close> with two arguments.\<close>

definition join :: "string \<Rightarrow> string \<Rightarrow> string" where
  "join a b =
     (if b \<noteq> [] \<and> hd b = CHR ''/'' then b
      else if a = [] \<or> last a = CHR ''/'' then a @ b
      else a @ ''/'' @ b)"

subsection \<open>Files and console\<close>

text \<open>
  The world of the program: the regular files by path, with their bytes; the paths
  at which a file can be created or overwritten; what the operating system answers
  when asked to make a directory; the lines printed so far.
\<close>

record world =
  files :: "string \<Rightarrow> u8 list option"
  writable :: "string \<Rightarrow> bool"
  mkdir_error :: "string \<Rightarrow> pyerr option"
  stdout :: "string list"

text \<open>
  \<^verbatim>\<open>os.makedirs(name, exist_ok=True)\<close>: it returns when the directory is there after
  the call, and raises the operating system's error (\<^verbatim>\<open>OSError\<close>, as when the path
  is a file or the directory may not be created) otherwise. Directories are not part
  of the world; the answer of the operating system is (\<open>mkdir_error\<close>).
\<close>

definition makedirs :: "world \<Rightarrow> string \<Rightarrow> pyerr + unit" where
  "makedirs w name = (case mkdir_error w name of Some e \<Rightarrow> Inl e | None \<Rightarrow> Inr ())"

definition isfile :: "world \<Rightarrow> string \<Rightarrow> bool" where
  "isfile w p = (files w p \<noteq> None)"

definition print :: "string \<Rightarrow> world \<Rightarrow> world" where
  "print s w = w\<lparr>stdout := stdout w @ [s]\<rparr>"

text \<open>\<^verbatim>\<open>str\<close> of a natural number, for the f-strings.\<close>

fun digit :: "nat \<Rightarrow> char" where
  "digit n = char_of (48 + n)"

function str_nat :: "nat \<Rightarrow> string" where
  "str_nat n = (if n < 10 then [digit n] else str_nat (n div 10) @ [digit (n mod 10)])"
  by pat_completeness auto
termination
  by (relation "measure id") auto

text \<open>The em dash of the program's messages, in UTF-8.\<close>

definition emdash :: string where
  "emdash = [char_of (226 :: nat), char_of (128 :: nat), char_of (148 :: nat)]"

subsection \<open>OpenCV\<close>

text \<open>What a codec decodes before any colour conversion: grey, BGR or BGR with alpha.\<close>

datatype sample = GrayPx u8 | BGRPx u8 u8 u8 | BGRAPx u8 u8 u8 u8

record decoded =
  drows :: nat
  dcols :: nat
  pixels :: "sample list"

datatype imread_flag = IMREAD_UNCHANGED | IMREAD_GRAYSCALE | IMREAD_COLOR

text \<open>
  The library: the codec's decoder (\<open>None\<close> for bytes that are no image it knows),
  the conversion that \<^verbatim>\<open>imread\<close> applies under the flags the program does not use,
  the encoder chosen by the file name (it may raise \<^verbatim>\<open>cv2.error\<close>), the value that
  each filter gives to the \<open>i\<close>-th element of its result, and what the platform makes
  of a conversion to 8 bits that C leaves undefined.
\<close>

record cvlib =
  decode :: "u8 list \<Rightarrow> decoded option"
  convert_other :: "imread_flag \<Rightarrow> decoded \<Rightarrow> u8 ndarray"
  encode :: "string \<Rightarrow> u8 ndarray \<Rightarrow> pyerr + u8 list"
  bilateral_value :: "u8 ndarray \<Rightarrow> int \<Rightarrow> rat \<Rightarrow> rat \<Rightarrow> nat \<Rightarrow> u8"
  gaussian_value :: "u8 ndarray \<Rightarrow> int \<times> int \<Rightarrow> rat \<Rightarrow> rat \<Rightarrow> nat \<Rightarrow> u8"
  cast_undefined :: "fp \<Rightarrow> u8"

text \<open>
  Modelled from the spec: \<^verbatim>\<open>cv2.bilateralFilter\<close> is OpenCV's and missing from the
  sources. The spec's Denoiser produces a new grid of identical shape and has no
  failure modes on a valid image: the call returns, the result has the shape of the
  source, and the value of its \<open>i\<close>-th element is the library's (\<open>bilateral_value\<close>).
\<close>

definition bilateralFilter :: "cvlib \<Rightarrow> u8 ndarray \<Rightarrow> int \<Rightarrow> rat \<Rightarrow> rat \<Rightarrow> u8 ndarray" where
  "bilateralFilter cv src d sigmaColor sigmaSpace =
     src\<lparr>data := map (bilateral_value cv src d sigmaColor sigmaSpace) [0..<length (data src)]\<rparr>"

text \<open>
  Modelled from the spec: \<^verbatim>\<open>cv2.GaussianBlur\<close> is OpenCV's and missing from the
  sources. The spec's blurred copy is a grid of the shape of the source, 8-bit for an
  8-bit source, and the value of the \<open>i\<close>-th element of the result is the library's
  (\<open>gaussian_value\<close>). The spec gives the Sharpener no failure modes on valid input;
  on other input OpenCV raises \<^verbatim>\<open>cv2.error\<close>, and the checks it makes are these.
  The source must not be empty. A kernel size is (width, height); along an axis
  where the source has one element the size is taken as 1, and a kernel of 1 by 1
  copies the source. A vertical deviation that is not positive is replaced by the
  horizontal one. A size that is not positive is derived from the deviation of its
  axis, which must then be positive (the derived size is positive and odd); a size
  that is given must be odd. The messages are shortened.
\<close>

definition kernel_ok :: "int \<Rightarrow> rat \<Rightarrow> bool" where
  "kernel_ok k sigma = (if k \<le> 0 then 0 < sigma else odd k)"

definition GaussianBlur ::
  "cvlib \<Rightarrow> u8 ndarray \<Rightarrow> int \<times> int \<Rightarrow> rat \<Rightarrow> rat \<Rightarrow> pyerr + u8 ndarray" where
  "GaussianBlur cv src ksize sigmaX sigmaY =
     (if rows src = 0 \<or> cols src = 0
      then Inl (CvError ''Assertion failed: !_src.empty()'')
      else
        (let kw = (if cols src = 1 then 1 else fst ksize);
             kh = (if rows src = 1 then 1 else snd ksize);
             sigma2 = (if sigmaY \<le> 0 then sigmaX else sigmaY)
         in if kw = 1 \<and> kh = 1 then Inr src
            else if kernel_ok kw sigmaX \<and> kernel_ok kh sigma2
            then Inr (src\<lparr>data := map (gaussian_value cv src ksize sigmaX sigmaY)
                                      [0..<length (data src)]\<rparr>)
            else Inl (CvError ''Assertion failed: ksize is positive and odd'')))"

definition bgr_of :: "sample \<Rightarrow> u8 list" where
  "bgr_of s = (case s of GrayPx g \<Rightarrow> [g, g, g] | BGRPx b g r \<Rightarrow> [b, g, r] | BGRAPx b g r a \<Rightarrow> [b, g, r])"

definition to_color :: "decoded \<Rightarrow> u8 ndarray" where
  "to_color d = \<lparr>rows = drows d, cols = dcols d, chans = 3, data = concat (map bgr_of (pixels d))\<rparr>"

text \<open>
  Modelled from the spec: \<^verbatim>\<open>cv2.imread\<close> is OpenCV's and missing from the sources.
  The spec's Loader decodes the bytes of the file into a grid of three interleaved
  8-bit channels and fails when the bytes are not a decodable image. OpenCV returns
  \<^verbatim>\<open>None\<close> for a file it cannot read or decode; with \<^verbatim>\<open>IMREAD_COLOR\<close> it converts
  what the codec decoded to three channels: a grey value fills all three, an alpha
  channel is dropped. The other flags are left to the library.
\<close>

definition imread :: "cvlib \<Rightarrow> world \<Rightarrow> string \<Rightarrow> imread_flag \<Rightarrow> u8 ndarray option" where
  "imread cv w filename flag =
     (case files w filename of
        None \<Rightarrow> None
      | Some bytes \<Rightarrow>
          (case decode cv bytes of
             None \<Rightarrow> None
           | Some d \<Rightarrow>
               (case flag of
                  IMREAD_COLOR \<Rightarrow> Some (to_color d)
                | _ \<Rightarrow> Some (convert_other cv flag d))))"

text \<open>
  \<^verbatim>\<open>cv2.imwrite\<close> is OpenCV's and missing from the sources; this is its behaviour in
  OpenCV. The call returns a truth value. It raises (\<^verbatim>\<open>cv2.error\<close>) when it has no
  encoder for the file name or the encoder rejects the image. When the file cannot
  be created or written it raises nothing and returns \<^verbatim>\<open>False\<close>. Otherwise the file
  holds the encoded bytes and the call returns \<^verbatim>\<open>True\<close>.
\<close>

definition imwrite :: "cvlib \<Rightarrow> world \<Rightarrow> string \<Rightarrow> u8 ndarray \<Rightarrow> (pyerr + bool) \<times> world" where
  "imwrite cv w filename img =
     (case encode cv filename img of
        Inl e \<Rightarrow> (Inl e, w)
      | Inr bytes \<Rightarrow>
          if writable w filename
          then (Inr True, w\<lparr>files := (files w)(filename \<mapsto> bytes)\<rparr>)
          else (Inr False, w))"

subsection \<open>The two filters of the program\<close>

text \<open>
  The default values of their parameters play no part: \<^verbatim>\<open>process_image\<close> passes
  every argument. \<open>amount\<close> is a Python number, \<open>radius\<close> becomes both deviations
  of the blur.
\<close>

definition bilateral_denoise :: "cvlib \<Rightarrow> u8 ndarray \<Rightarrow> int \<Rightarrow> rat \<Rightarrow> rat \<Rightarrow> u8 ndarray" where
  "bilateral_denoise cv img d sigma_color sigma_space =
     bilateralFilter cv img d sigma_color sigma_space"

definition unsharp_mask :: "cvlib \<Rightarrow> u8 ndarray \<Rightarrow> fp \<Rightarrow> rat \<Rightarrow> pyerr + u8 ndarray" where
  "unsharp_mask cv img amount radius =
     (case GaussianBlur cv img (0, 0) radius radius of
        Inl e \<Rightarrow> Inl e
      | Inr blurred \<Rightarrow>
          (let img_f = astype_float32 img;
               blurred_f = astype_float32 blurred
           in (case np_subtract img_f blurred_f of
                 Inl e \<Rightarrow> Inl e
               | Inr mask' \<Rightarrow>
                   (case np_add img_f (np_scalar_multiply amount mask') of
                      Inl e \<Rightarrow> Inl e
                    | Inr result \<Rightarrow>
                        Inr (astype_uint8 (cast_undefined cv) (np_clip result 0 255))))))"

text \<open>
  The Sharpener in the spec's words, for one element: original plus amount times
  (original minus blurred), in \<^verbatim>\<open>float32\<close>, clipped to \<open>[0, 255]\<close> and converted
  back to 8 bits.
\<close>

definition sharpener_spec :: "(fp \<Rightarrow> u8) \<Rightarrow> fp \<Rightarrow> u8 \<Rightarrow> u8 \<Rightarrow> u8" where
  "sharpener_spec undef amount original blurred =
     f32_to_u8 undef
       (fclip 0 255
          (fadd (of_u8 original) (fmul (to_f32 amount) (fsub (of_u8 original) (of_u8 blurred)))))"

subsection \<open>The pipeline\<close>

text \<open>The two lines that the program prints, and the messages of its two exceptions.\<close>

definition read_message :: "string \<Rightarrow> nat \<Rightarrow> nat \<Rightarrow> string" where
  "read_message path_in wd h =
     ''Membaca '' @ [char_of (39 :: nat)] @ path_in @ [char_of (39 :: nat)] @ '' '' @ emdash
       @ '' resolusi: '' @ str_nat wd @ ''x'' @ str_nat h @ '', dtype: uint8''"

definition done_message :: "string \<Rightarrow> string" where
  "done_message out_path = ''Selesai. Hasil disimpan di: '' @ out_path"

definition not_found_message :: "string \<Rightarrow> string" where
  "not_found_message path_in = ''File input tidak ditemukan: '' @ path_in"

definition unreadable_message :: string where
  "unreadable_message =
     ''Gagal membaca citra '' @ emdash @ '' format mungkin tidak didukung atau file korup.''"

text \<open>
  \<^verbatim>\<open>process_image\<close> returns nothing or raises; the world it leaves comes with the
  outcome. The truth value that \<^verbatim>\<open>imwrite\<close> returns (\<open>ok\<close>) is not looked at, as in
  the source, where the call is a statement of its own.
\<close>

definition process_image :: "cvlib \<Rightarrow> string \<Rightarrow> string \<Rightarrow> world \<Rightarrow> (pyerr + unit) \<times> world" where
  "process_image cv path_in path_out w =
     (if \<not> isfile w path_in
      then (Inl (FileNotFoundError (not_found_message path_in)), w)
      else
        (case imread cv w path_in IMREAD_COLOR of
           None \<Rightarrow> (Inl (ValueError unreadable_message), w)
         | Some img \<Rightarrow>
             (let h = rows img;
                  wd = cols img;
                  w1 = print (read_message path_in wd h) w;
                  denoised = bilateral_denoise cv img 9 75 75
              in (case unsharp_mask cv denoised (Finite 1) 3 of
                    Inl e \<Rightarrow> (Inl e, w1)
                  | Inr sharpened \<Rightarrow>
                      (let base = fst (splitext (basename path_in));
                           out_name = ''result_'' @ base @ ''.png'';
                           out_path = join path_out out_name
                       in (case imwrite cv w1 out_path sharpened of
                             (Inl e, w2) \<Rightarrow> (Inl e, w2)
                           | (Inr ok, w2) \<Rightarrow> (Inr (), print (done_message out_path) w2)))))))"

text \<open>
  The script from top to bottom: the module's constants, the creation of the output
  directory when the module is loaded, and the \<^verbatim>\<open>__main__\<close> block. \<^verbatim>\<open>BASE_DIR\<close>, the
  directory of the script, is a parameter. The script ends with status 1 when an
  exception escapes and with status 0 otherwise.
\<close>

definition IMAGES_DIR :: "string \<Rightarrow> string" where
  "IMAGES_DIR base_dir = join base_dir ''images''"

definition OUTPUT_DIR :: "string \<Rightarrow> string" where
  "OUTPUT_DIR base_dir = join base_dir ''output''"

definition INPUT_IMAGE_NAME :: string where
  "INPUT_IMAGE_NAME = ''img-3.jpg''"

definition INPUT_PATH :: "string \<Rightarrow> string" where
  "INPUT_PATH base_dir = join (IMAGES_DIR base_dir) INPUT_IMAGE_NAME"

definition main :: "cvlib \<Rightarrow> string \<Rightarrow> world \<Rightarrow> nat \<times> world" where
  "main cv base_dir w =
     (case makedirs w (OUTPUT_DIR base_dir) of
        Inl e \<Rightarrow> (1, w)
      | Inr u \<Rightarrow>
          (case process_image cv (INPUT_PATH base_dir) (OUTPUT_DIR base_dir)
                  (print ''--- HelloImageProject - proses mulai ---'' w) of
             (Inl e, w') \<Rightarrow> (1, w')
           | (Inr u', w') \<Rightarrow> (0, w')))"

subsection \<open>A small instance\<close>

text \<open>
  A toy library and a toy file system, for evaluating the definitions: a file of \<open>n\<close>
  bytes decodes to a grey image of one row and \<open>n\<close> columns (and a file of no bytes
  does not decode), the encoder writes the samples out, the bilateral filter keeps
  every sample, the blur sets every sample to 100.
\<close>

definition example_cv :: cvlib where
  "example_cv =
     \<lparr>decode = (\<lambda>bs. if bs = [] then None
                      else Some \<lparr>drows = 1, dcols = length bs, pixels = map GrayPx bs\<rparr>),
      convert_other = (\<lambda>flag d. to_color d),
      encode = (\<lambda>name img. Inr (data img)),
      bilateral_value = (\<lambda>src d sigmaColor sigmaSpace i. data src ! i),
      gaussian_value = (\<lambda>src ksize sigmaX sigmaY i. 100),
      cast_undefined = (\<lambda>v. 0)\<rparr>"

definition example_world :: world where
  "example_world =
     \<lparr>files = [''/app/images/img-3.jpg'' \<mapsto> [10, 200, 120], ''/app/images/empty.jpg'' \<mapsto> []],
      writable = (\<lambda>p. True),
      mkdir_error = (\<lambda>p. None),
      stdout = []\<rparr>"

text \<open>The same files where nothing can be written.\<close>

definition readonly_world :: world where
  "readonly_world = example_world\<lparr>writable := (\<lambda>p. False)\<rparr>"

text \<open>
  Another run: other files beside the input, other permissions beside the output
  path, an earlier line on the console, and a platform that converts what C leaves
  undefined differently.
\<close>

definition other_world :: world where
  "other_world =
     example_world\<lparr>files := (files example_world)(''/app/notes.txt'' \<mapsto> [1, 2, 3]),
                   writable := (\<lambda>p. p = ''/app/output/result_img-3.png''),
                   stdout := [''an earlier line'']\<rparr>"

definition other_cv :: cvlib where
  "other_cv = example_cv\<lparr>cast_undefined := (\<lambda>v. 255)\<rparr>"

text \<open>A world where the output directory cannot be made.\<close>

definition blocked_world :: world where
  "blocked_world =
     example_world\<lparr>mkdir_error := (\<lambda>p. if p = ''/app/output''
                                         then Some (OSError ''/app/output'') else None)\<rparr>"

definition example_decoded :: decoded where
  "example_decoded = \<lparr>drows = 1, dcols = 3, pixels = [GrayPx 10, GrayPx 200, GrayPx 120]\<rparr>"

definition example_loaded :: "u8 ndarray" where
  "example_loaded =
     \<lparr>rows = 1, cols = 3, chans = 3, data = [10, 10, 10, 200, 200, 200, 120, 120, 120]\<rparr>"

definition example_image :: "u8 ndarray" where
  "example_image = \<lparr>rows = 1, cols = 2, chans = 3, data = [10, 200, 120, 100, 0, 255]\<rparr>"

definition square_image :: "u8 ndarray" where
  "square_image =
     \<lparr>rows = 2, cols = 2, chans = 3,
      data = [10, 200, 120, 100, 0, 255, 7, 8, 9, 50, 60, 70]\<rparr>"

section \<open>Properties\<close>

subsection \<open>Rounding\<close>

text \<open>
  \<open>round_half_even\<close> is within a half of its argument and \<open>ilog2\<close> is the binary
  exponent, so a finite \<open>round32 x\<close> is within half a unit in the last place of \<open>x\<close>.
\<close>

lemma round_half_even_nearest: "\<bar>of_int (round_half_even x) - x\<bar> \<le> 1 / 2"
proof -
  have "of_int \<lfloor>x\<rfloor> \<le> x" "x < of_int \<lfloor>x\<rfloor> + 1"
    by linarith+
  then show ?thesis
    by (auto simp: round_half_even_def Let_def abs_le_iff)
qed

lemma ilog2_bounds:
  assumes "0 < x"
  shows "pow2 (ilog2 x) \<le> x \<and> x < pow2 (ilog2 x + 1)"
proof (cases "1 \<le> x")
  case True
  define n where "n = \<lfloor>x\<rfloor>"
  have n: "0 < n" "of_int n \<le> x" "x < of_int n + 1"
    using True by (simp_all add: n_def) linarith+
  define k where "k = nat (bitlen n - 1)"
  have b: "1 \<le> bitlen n"
    using n(1) bitlen_nonneg [of n] bitlen_eq_zero_iff [of n] by linarith
  then have k: "nat (bitlen n) = Suc k" "bitlen n - 1 = int k"
    by (simp_all add: k_def)
  have bb: "2 ^ k \<le> n" "n < 2 ^ Suc k"
    using bitlen_bounds [OF n(1)] unfolding k(1) k_def [symmetric] by simp_all
  have "(2 :: rat) ^ k = of_int (2 ^ k)"
    by simp
  also have "\<dots> \<le> of_int n"
    using bb(1) of_int_le_iff by blast
  finally have lo: "(2 :: rat) ^ k \<le> x"
    using n(2) by linarith
  have "n + 1 \<le> 2 ^ Suc k"
    using bb(2) by linarith
  then have "rat_of_int (n + 1) \<le> of_int (2 ^ Suc k)"
    using of_int_le_iff by blast
  then have hi: "x < 2 ^ Suc k"
    using n(3) by simp
  have "ilog2 x = int k"
    using True k by (simp add: ilog2_def n_def)
  then show ?thesis
    using lo hi by (simp add: pow2_def nat_add_distrib)
next
  case False
  define y where "y = 1 / x"
  have y: "1 < y"
    using assms False by (simp add: y_def)
  define m where "m = \<lceil>y\<rceil> - 1"
  have m: "0 < m" "of_int m < y" "y \<le> of_int m + 1"
    using y by (simp_all add: m_def) linarith+
  define k where "k = nat (bitlen m - 1)"
  have b: "1 \<le> bitlen m"
    using m(1) bitlen_nonneg [of m] bitlen_eq_zero_iff [of m] by linarith
  then have k: "nat (bitlen m) = Suc k" "bitlen m = int (Suc k)"
    by (simp_all add: k_def)
  have bb: "2 ^ k \<le> m" "m < 2 ^ Suc k"
    using bitlen_bounds [OF m(1)] unfolding k(1) k_def [symmetric] by simp_all
  have "(2 :: rat) ^ k = of_int (2 ^ k)"
    by simp
  also have "\<dots> \<le> of_int m"
    using bb(1) of_int_le_iff by blast
  finally have lo: "(2 :: rat) ^ k < y"
    using m(2) by linarith
  have "m + 1 \<le> 2 ^ Suc k"
    using bb(2) by linarith
  then have "rat_of_int (m + 1) \<le> of_int (2 ^ Suc k)"
    using of_int_le_iff by blast
  then have hi: "y \<le> 2 ^ Suc k"
    using m(3) by simp
  have e: "ilog2 x = - int (Suc k)"
    using False k by (simp add: ilog2_def m_def y_def)
  have x: "x = 1 / y"
    by (simp add: y_def)
  have "1 / 2 ^ Suc k \<le> x"
    unfolding x using hi y by (intro divide_left_mono) simp_all
  moreover have "x < 1 / 2 ^ k"
    unfolding x using lo y by (intro divide_strict_left_mono) simp_all
  moreover have "pow2 (- int (Suc k)) = 1 / 2 ^ Suc k"
  proof -
    have "nat (- (- int (Suc k))) = Suc k"
      by (simp only: minus_minus nat_int)
    moreover have "\<not> 0 \<le> - int (Suc k)"
      by simp
    ultimately show ?thesis
      by (simp only: pow2_def if_False)
  qed
  moreover have "pow2 (- int k) = 1 / 2 ^ k"
  proof (cases "k = 0")
    case True
    then show ?thesis
      by (simp add: pow2_def)
  next
    case False
    then have "\<not> 0 \<le> - int k"
      by simp
    moreover have "nat (- (- int k)) = k"
      by (simp only: minus_minus nat_int)
    ultimately show ?thesis
      by (simp only: pow2_def if_False)
  qed
  moreover have "- int (Suc k) + 1 = - int k"
    by simp
  ultimately show ?thesis
    unfolding e by (simp only:)
qed

lemma pow2_pos: "0 < pow2 e"
  by (simp add: pow2_def)

lemma round32_half_ulp:
  assumes "round32 x = Finite r"
  shows "\<bar>r - x\<bar> \<le> pow2 (max (ilog2 \<bar>x\<bar>) (- 126) - 23) / 2"
proof (cases "x = 0")
  case True
  with assms show ?thesis
    using pow2_pos [of "max (ilog2 \<bar>x\<bar>) (- 126) - 23"] by (simp add: round32_def)
next
  case False
  define u where "u = pow2 (max (ilog2 \<bar>x\<bar>) (- 126) - 23)"
  have u: "0 < u"
    unfolding u_def by (rule pow2_pos)
  have r: "r = of_int (round_half_even (x / u)) * u"
    using assms False by (simp add: round32_def Let_def u_def split: if_splits)
  have "r - x = (of_int (round_half_even (x / u)) - x / u) * u"
    using u by (simp add: r field_simps)
  then have "\<bar>r - x\<bar> = \<bar>of_int (round_half_even (x / u)) - x / u\<bar> * u"
    using u by (simp add: abs_mult)
  also have "\<dots> \<le> 1 / 2 * u"
    using round_half_even_nearest [of "x / u"] u by (intro mult_right_mono) simp_all
  finally show ?thesis
    by (simp add: u_def)
qed

subsection \<open>Exact float32 arithmetic on small integers\<close>

text \<open>
  Integers below \<open>2^24\<close> in magnitude are binary32 values, so sums, differences and
  products that stay in that range are exact.
\<close>

lemma round_half_even_of_int: "round_half_even (of_int k) = k"
  by (simp add: round_half_even_def)

lemma pow2_nonpos: "e \<le> 0 \<Longrightarrow> pow2 e = 1 / 2 ^ nat (- e)"
  by (auto simp: pow2_def)

lemma ilog2_of_int: "0 < n \<Longrightarrow> ilog2 (of_int n) = bitlen n - 1"
  by (simp add: ilog2_def)

lemma round32_zero: "round32 0 = Finite 0"
  by (simp add: round32_def)

lemma round32_nonzero_int:
  assumes "n \<noteq> 0" and "\<bar>n\<bar> < 2 ^ 24"
  shows "round32 (of_int n) = Finite (of_int n)"
proof -
  define e where "e = bitlen \<bar>n\<bar> - 1"
  have pos: "0 < \<bar>n\<bar>"
    using assms(1) by simp
  have "bitlen \<bar>n\<bar> \<le> 24"
    using assms(2) by (simp add: bitlen_le_iff_power)
  moreover have "1 \<le> bitlen \<bar>n\<bar>"
    using pos bitlen_nonneg [of "\<bar>n\<bar>"] bitlen_eq_zero_iff [of "\<bar>n\<bar>"] by linarith
  ultimately have e: "0 \<le> e" "e \<le> 23"
    by (simp_all add: e_def)
  define k where "k = nat (23 - e)"
  define R :: rat where "R = of_int (round_half_even (rat_of_int n / (1 / 2 ^ k))) * (1 / 2 ^ k)"
  have "\<bar>rat_of_int n\<bar> = rat_of_int \<bar>n\<bar>"
    by simp
  then have il: "ilog2 \<bar>rat_of_int n\<bar> = e"
    using pos ilog2_of_int [of "\<bar>n\<bar>"] by (simp only: e_def)
  have u: "pow2 (max e (- 126) - 23) = 1 / 2 ^ k"
    using e by (simp add: pow2_nonpos k_def max_def)
  have q: "rat_of_int n / (1 / 2 ^ k) = of_int (n * 2 ^ k)"
    by simp
  have r: "R = rat_of_int n"
    unfolding R_def q round_half_even_of_int by simp
  have small: "\<not> (2 ^ 128 \<le> \<bar>rat_of_int n\<bar>)"
  proof -
    have "rat_of_int \<bar>n\<bar> < of_int (2 ^ 24)"
      using assms(2) of_int_less_iff by blast
    also have "\<dots> < 2 ^ 128" by simp
    finally show ?thesis by simp
  qed
  have nz: "rat_of_int n \<noteq> 0"
    using assms(1) by simp
  have "round32 (of_int n) =
          (if 2 ^ 128 \<le> \<bar>R\<bar> then (if 0 < rat_of_int n then PInf else NInf) else Finite R)"
    unfolding round32_def Let_def il u R_def using nz by (simp only: if_False)
  also have "\<dots> = Finite (of_int n)"
    unfolding r using small by (simp only: if_False)
  finally show ?thesis .
qed

lemma round32_int: "\<bar>n\<bar> < 2 ^ 24 \<Longrightarrow> round32 (of_int n) = Finite (of_int n)"
  using round32_nonzero_int [of n] round32_zero by (cases "n = 0") simp_all

lemma fadd_int:
  "\<bar>a + b\<bar> < 2 ^ 24 \<Longrightarrow> fadd (Finite (of_int a)) (Finite (of_int b)) = Finite (of_int (a + b))"
  using round32_int [of "a + b"] by simp

lemma fsub_int:
  "\<bar>a - b\<bar> < 2 ^ 24 \<Longrightarrow> fsub (Finite (of_int a)) (Finite (of_int b)) = Finite (of_int (a - b))"
  using round32_int [of "a - b"] by (simp add: fsub_def)

lemma fmul_int:
  "\<bar>a * b\<bar> < 2 ^ 24 \<Longrightarrow> fmul (Finite (of_int a)) (Finite (of_int b)) = Finite (of_int (a * b))"
  using round32_int [of "a * b"] by simp

lemma clip_cast_int:
  "f32_to_u8 undef (fclip 0 255 (Finite (of_int a))) = word_of_int (min 255 (max 0 a))"
proof -
  have "min (max (rat_of_int a) 0) 255 = of_int (min 255 (max 0 a))"
    by (simp add: min_def max_def)
  moreover have "trunc (of_int (min 255 (max 0 a))) = min 255 (max 0 a)"
    by (simp add: trunc_def)
  ultimately show ?thesis
    by simp
qed

lemma of_u8_int: "of_u8 v = Finite (of_int (uint v))"
  by (simp add: of_u8_def)

lemma u8_diff_small: "\<bar>uint (a :: u8) - uint (b :: u8)\<bar> < 2 ^ 24"
proof -
  have "uint a < 256" "uint b < 256"
    using uint_bounded [of a] uint_bounded [of b] by simp_all
  moreover have "0 \<le> uint a" "0 \<le> uint b"
    by simp_all
  ultimately have "- 256 < uint a - uint b \<and> uint a - uint b < 256"
    by linarith
  then show ?thesis
    by (simp add: abs_less_iff)
qed

lemma sharpener_spec_amount_zero: "sharpener_spec undef (Finite 0) original blurred = original"
proof -
  let ?o = "uint original" and ?b = "uint blurred"
  have o: "\<bar>?o + 0\<bar> < 2 ^ 24"
    using u8_diff_small [of original 0] by simp
  have "fmul (Finite 0) (Finite (of_int (?o - ?b))) = Finite (of_int 0)"
    using round32_zero by simp
  then have "fadd (of_u8 original) (fmul (to_f32 (Finite 0)) (fsub (of_u8 original) (of_u8 blurred)))
          = Finite (of_int ?o)"
    using fadd_int [OF o]
    by (simp only: of_u8_int fsub_int [OF u8_diff_small] to_f32.simps round32_zero add_0_right)
  then have "sharpener_spec undef (Finite 0) original blurred = word_of_int (min 255 (max 0 ?o))"
    by (simp only: sharpener_spec_def clip_cast_int)
  also have "min 255 (max 0 ?o) = ?o"
    using uint_bounded [of original] by simp
  finally show ?thesis
    by simp
qed

lemma sharpener_spec_amount_one:
  "sharpener_spec undef (Finite 1) original blurred =
     word_of_int (min 255 (max 0 (2 * uint original - uint blurred)))"
proof -
  let ?o = "uint original" and ?b = "uint blurred"
  have bo: "0 \<le> ?o" "?o < 256" and bb: "0 \<le> ?b" "?b < 256"
    using uint_bounded [of original] uint_bounded [of blurred] by simp_all
  have one: "round32 1 = Finite (of_int 1)"
    using round32_int [of 1] by simp
  have m: "\<bar>1 * (?o - ?b)\<bar> < 2 ^ 24"
    using u8_diff_small [of original blurred] by simp
  have "- 256 < ?o + (?o - ?b) \<and> ?o + (?o - ?b) < 512"
    using bo bb by linarith
  then have s: "\<bar>?o + 1 * (?o - ?b)\<bar> < 2 ^ 24"
    by (simp add: abs_less_iff)
  have "fadd (of_u8 original) (fmul (to_f32 (Finite 1)) (fsub (of_u8 original) (of_u8 blurred)))
          = Finite (of_int (?o + 1 * (?o - ?b)))"
    by (simp only: of_u8_int fsub_int [OF u8_diff_small] to_f32.simps one fmul_int [OF m]
          fadd_int [OF s])
  then have "sharpener_spec undef (Finite 1) original blurred
          = word_of_int (min 255 (max 0 (?o + 1 * (?o - ?b))))"
    by (simp only: sharpener_spec_def clip_cast_int)
  also have "?o + 1 * (?o - ?b) = 2 * ?o - ?b"
    by simp
  finally show ?thesis .
qed

subsection \<open>Arrays and the Sharpener\<close>

lemma index_in_range:
  fixes r c k :: nat
  assumes "r < R" and "c < C" and "k < K"
  shows "(r * C + c) * K + k < R * C * K"
proof -
  have "r * C + c < Suc r * C"
    using assms(2) by simp
  also have "Suc r * C \<le> R * C"
    using assms(1) by (intro mult_le_mono1) simp
  finally have "Suc (r * C + c) \<le> R * C"
    by simp
  then have "Suc (r * C + c) * K \<le> R * C * K"
    by (rule mult_le_mono1)
  moreover have "(r * C + c) * K + k < Suc (r * C + c) * K"
    using assms(3) by simp
  ultimately show ?thesis
    by linarith
qed

lemma GaussianBlur_Inr:
  assumes "GaussianBlur cv img ksize sx sy = Inr b"
  shows "rows b = rows img" and "cols b = cols img" and "chans b = chans img"
    and "length (data b) = length (data img)"
  using assms by (auto simp: GaussianBlur_def Let_def split: if_splits)

lemma GaussianBlur_returns:
  assumes "0 < rows img" and "0 < cols img" and "0 < radius"
  shows "\<exists>b. GaussianBlur cv img (0, 0) radius radius = Inr b"
  using assms by (auto simp: GaussianBlur_def Let_def kernel_ok_def)

text \<open>
  With the kernel size to be derived, a deviation that is not positive is rejected on
  every grid of more than one row and more than one column.
\<close>

lemma GaussianBlur_rejects:
  assumes "1 < rows img" and "1 < cols img" and "radius \<le> 0"
  shows "\<exists>e. GaussianBlur cv img (0, 0) radius radius = Inl e"
  using assms by (auto simp: GaussianBlur_def Let_def kernel_ok_def)

lemma shape_bilateralFilter: "shape (bilateralFilter cv img d sc ss) = shape img"
  by (simp add: bilateralFilter_def shape_def)

lemma length_bilateralFilter: "length (data (bilateralFilter cv img d sc ss)) = length (data img)"
  by (simp add: bilateralFilter_def)

lemma fused_maps:
  "length xs = length ys \<Longrightarrow>
   map (C \<circ> (D \<circ> (\<lambda>(x, y). A x y)))
     (zip (map F xs) (map (M \<circ> (\<lambda>(x, y). S x y)) (zip (map F xs) (map F ys))))
     = map2 (\<lambda>x y. C (D (A (F x) (M (S (F x) (F y)))))) xs ys"
  by (induction xs ys rule: list_induct2) simp_all

lemma unsharp_mask_eq:
  assumes "GaussianBlur cv img (0, 0) radius radius = Inr b"
  shows "unsharp_mask cv img amount radius =
     Inr \<lparr>rows = rows img, cols = cols img, chans = chans img,
          data = map2 (sharpener_spec (cast_undefined cv) amount) (data img) (data b)\<rparr>"
proof -
  have len: "length (data img) = length (data b)"
    using GaussianBlur_Inr(4) [OF assms] by simp
  have sh: "shape (astype_float32 img) = shape (astype_float32 b)"
    using GaussianBlur_Inr(1-3) [OF assms]
    by (simp add: astype_float32_def amap_def shape_def)
  have sub: "np_subtract (astype_float32 img) (astype_float32 b) =
      Inr \<lparr>rows = rows img, cols = cols img, chans = chans img,
           data = map2 fsub (map of_u8 (data img)) (map of_u8 (data b))\<rparr>"
    using sh by (simp add: np_subtract_def np_binop_def astype_float32_def amap_def)
  show ?thesis
    apply (simp only: unsharp_mask_def assms sum.case Let_def sub)
    apply (simp add: np_add_def np_binop_def np_scalar_multiply_def astype_float32_def amap_def
          shape_def np_clip_def astype_uint8_def sharpener_spec_def fused_maps [OF len])
    done
qed

lemma unsharp_mask_raises:
  assumes "GaussianBlur cv img (0, 0) radius radius = Inl e"
  shows "unsharp_mask cv img amount radius = Inl e"
  by (simp add: unsharp_mask_def assms)

lemma unsharp_mask_returns:
  assumes "0 < rows img" and "0 < cols img" and "0 < radius"
  shows "\<exists>b. GaussianBlur cv img (0, 0) radius radius = Inr b \<and>
           unsharp_mask cv img amount radius =
             Inr \<lparr>rows = rows img, cols = cols img, chans = chans img,
                  data = map2 (sharpener_spec (cast_undefined cv) amount) (data img) (data b)\<rparr>"
  using GaussianBlur_returns [OF assms] unsharp_mask_eq by blast

text \<open>
  At the amount of the program the conversion that C leaves undefined is never
  reached, and the Sharpener's result rests on the values of the blur alone.
\<close>

lemma unsharp_mask_amount_one_cong:
  assumes "gaussian_value cv1 = gaussian_value cv2"
  shows "unsharp_mask cv1 img (Finite 1) radius = unsharp_mask cv2 img (Finite 1) radius"
proof -
  have g: "GaussianBlur cv1 img (0, 0) radius radius = GaussianBlur cv2 img (0, 0) radius radius"
    by (simp add: GaussianBlur_def assms)
  show ?thesis
  proof (cases "GaussianBlur cv1 img (0, 0) radius radius")
    case (Inl e)
    then show ?thesis
      using g by (simp add: unsharp_mask_raises)
  next
    case (Inr b)
    then show ?thesis
      using g by (simp add: unsharp_mask_eq sharpener_spec_amount_one)
  qed
qed

lemma map2_first: "length xs = length ys \<Longrightarrow> map2 (\<lambda>x y. x) xs ys = xs"
  by (induction xs ys rule: list_induct2) simp_all

lemma u8_range: "unat (v :: u8) \<le> 255"
proof -
  have "unat v < 2 ^ 8"
    using unsigned_less [of v] by simp
  then show ?thesis
    by simp
qed

subsection \<open>Paths\<close>

lemma rfind_bounds: "- 1 \<le> rfind c s \<and> rfind c s < int (length s)"
  by (induction s) (auto simp: Let_def)

lemma rfind_neg_iff: "rfind c s < 0 \<longleftrightarrow> c \<notin> set s"
  using rfind_bounds [of c] by (induction s) (auto simp: Let_def)

lemma rfind_absent: "c \<notin> set s \<Longrightarrow> rfind c s = - 1"
  using rfind_neg_iff [of c s] rfind_bounds [of c s] by linarith

lemma rfind_append:
  "rfind c (xs @ ys) = (if c \<in> set ys then int (length xs) + rfind c ys else rfind c xs)"
proof (induction xs)
  case Nil
  then show ?case by (simp add: rfind_absent)
next
  case (Cons x xs)
  then show ?case
    using rfind_neg_iff [of c ys] rfind_bounds [of c xs] rfind_bounds [of c ys]
    by (auto simp: Let_def)
qed

lemma rfind_nth: "0 \<le> rfind c s \<Longrightarrow> s ! nat (rfind c s) = c"
proof (induction s)
  case Nil
  then show ?case by simp
next
  case (Cons x xs)
  show ?case
  proof (cases "0 \<le> rfind c xs")
    case True
    then have "nat (rfind c xs + 1) = Suc (nat (rfind c xs))"
      by simp
    with True Cons.IH show ?thesis
      by (simp add: Let_def)
  next
    case False
    with Cons.prems show ?thesis
      by (simp add: Let_def split: if_splits)
  qed
qed

lemma rfind_drop: "c \<notin> set (drop (nat (rfind c s + 1)) s)"
proof (induction s)
  case Nil
  then show ?case by simp
next
  case (Cons x xs)
  show ?case
  proof (cases "0 \<le> rfind c xs")
    case True
    then have "nat (rfind c xs + 1 + 1) = Suc (nat (rfind c xs + 1))"
      by simp
    with True Cons.IH show ?thesis
      by (simp add: Let_def)
  next
    case False
    then have "c \<notin> set xs"
      using rfind_neg_iff [of c xs] by simp
    with False show ?thesis
      by (simp add: Let_def)
  qed
qed

lemma basename_no_sep: "CHR ''/'' \<notin> set (basename p)"
  unfolding basename_def by (rule rfind_drop)

lemma basename_suffix: "\<exists>d. p = d @ basename p \<and> (d = [] \<or> last d = CHR ''/'')"
proof (cases "0 \<le> rfind CHR ''/'' p")
  case True
  let ?i = "nat (rfind CHR ''/'' p)"
  have i: "?i < length p"
    using True rfind_bounds [of "CHR ''/''" p] by simp
  have n: "nat (rfind CHR ''/'' p + 1) = Suc ?i"
    using True by simp
  have "last (take (Suc ?i) p) = p ! ?i"
    using i by (simp add: take_Suc_conv_app_nth)
  then have "last (take (Suc ?i) p) = CHR ''/''"
    using rfind_nth [OF True] by simp
  moreover have "p = take (Suc ?i) p @ basename p"
    by (simp add: basename_def n)
  ultimately show ?thesis
    by blast
next
  case False
  then have "rfind CHR ''/'' p = - 1"
    using rfind_bounds [of "CHR ''/''" p] by linarith
  then have "basename p = p"
    by (simp add: basename_def)
  then show ?thesis
    by simp
qed

lemma splitext_loop_Some:
  "splitext_loop p d i = Some r \<Longrightarrow> r = (take d p, drop d p)"
proof (induction p d i rule: splitext_loop.induct)
  case (1 p dotIndex filenameIndex)
  then show ?case
    by (subst (asm) (2) splitext_loop.simps) (auto split: if_splits)
qed

lemma splitext_cases:
  "splitext p = (p, []) \<or>
   (0 \<le> rfind CHR ''.'' p \<and>
    splitext p = (take (nat (rfind CHR ''.'' p)) p, drop (nat (rfind CHR ''.'' p)) p))"
proof (cases "splitext_loop p (nat (rfind CHR ''.'' p)) (nat (rfind CHR ''/'' p + 1))")
  case None
  then show ?thesis
    by (simp add: splitext_def Let_def)
next
  case (Some r)
  then have "r = (take (nat (rfind CHR ''.'' p)) p, drop (nat (rfind CHR ''.'' p)) p)"
    by (rule splitext_loop_Some)
  with Some show ?thesis
    using rfind_bounds [of "CHR ''/''" p] by (auto simp: splitext_def Let_def)
qed

lemma splitext_concat: "fst (splitext p) @ snd (splitext p) = p"
  using splitext_cases [of p] by auto

lemma splitext_extension:
  "snd (splitext p) = [] \<or>
   (hd (snd (splitext p)) = CHR ''.'' \<and> CHR ''.'' \<notin> set (tl (snd (splitext p))))"
proof -
  consider "splitext p = (p, [])"
    | "0 \<le> rfind CHR ''.'' p"
      "splitext p = (take (nat (rfind CHR ''.'' p)) p, drop (nat (rfind CHR ''.'' p)) p)"
    using splitext_cases [of p] by blast
  then show ?thesis
  proof cases
    case 1
    then show ?thesis by simp
  next
    case 2
    let ?i = "nat (rfind CHR ''.'' p)"
    have i: "?i < length p"
      using 2(1) rfind_bounds [of "CHR ''.''" p] by simp
    have "hd (drop ?i p) = CHR ''.''"
      using i rfind_nth [OF 2(1)] by (simp add: hd_drop_conv_nth)
    moreover have "tl (drop ?i p) = drop (nat (rfind CHR ''.'' p + 1)) p"
      using 2(1) by (simp add: drop_Suc tl_drop nat_add_distrib)
    then have "CHR ''.'' \<notin> set (tl (drop ?i p))"
      using rfind_drop [of "CHR ''.''" p] by simp
    ultimately show ?thesis
      using 2(2) by simp
  qed
qed

lemma splitext_stem_subset: "set (fst (splitext p)) \<subseteq> set p"
  using splitext_cases [of p] by (auto dest: in_set_takeD)

lemma join_cases:
  "CHR ''/'' \<notin> set b \<Longrightarrow> join a b = a @ b \<or> join a b = a @ ''/'' @ b"
  by (cases b) (auto simp: join_def)

lemma rfind_snoc: "rfind c (xs @ [c]) = int (length xs)"
  by (simp add: rfind_append Let_def)

lemma basename_append_sep:
  assumes "CHR ''/'' \<notin> set b"
  shows "basename (d @ CHR ''/'' # b) = b"
proof -
  have "rfind CHR ''/'' (d @ [CHR ''/''] @ b) = int (length d)"
    using assms rfind_snoc [of "CHR ''/''" d] by (simp only: append_assoc [symmetric] rfind_append if_False)
  then have "nat (rfind CHR ''/'' (d @ CHR ''/'' # b) + 1) = Suc (length d)"
    by simp
  then show ?thesis
    by (simp add: basename_def)
qed

lemma basename_join:
  assumes "CHR ''/'' \<notin> set b"
  shows "basename (join a b) = b"
proof -
  have nob: "\<not> (b \<noteq> [] \<and> hd b = CHR ''/'')"
    using assms by (cases b) auto
  consider "a = []" | "a \<noteq> []" "last a = CHR ''/''" | "a \<noteq> []" "last a \<noteq> CHR ''/''"
    by blast
  then show ?thesis
  proof cases
    case 1
    then have "join a b = b"
      using nob by (auto simp: join_def)
    moreover have "basename b = b"
      using rfind_absent [OF assms] by (simp add: basename_def)
    ultimately show ?thesis
      by simp
  next
    case 2
    then have "join a b = a @ b"
      using nob by (auto simp: join_def)
    moreover have "a = butlast a @ [CHR ''/'']"
      using 2 append_butlast_last_id [of a] by simp
    ultimately have "join a b = butlast a @ CHR ''/'' # b"
      by (metis append.assoc append_Cons append_Nil)
    then show ?thesis
      using basename_append_sep [OF assms] by simp
  next
    case 3
    then have "join a b = a @ CHR ''/'' # b"
      using nob by (auto simp: join_def)
    then show ?thesis
      using basename_append_sep [OF assms] by simp
  qed
qed

subsection \<open>The pipeline step by step\<close>

lemma imread_isfile: "imread cv w p flag = Some img \<Longrightarrow> isfile w p"
  by (auto simp: imread_def isfile_def split: option.splits)

lemma files_print [simp]: "files (print s w) = files w"
  by (simp add: print_def)

lemma writable_print [simp]: "writable (print s w) = writable w"
  by (simp add: print_def)

lemma stdout_print [simp]: "stdout (print s w) = stdout w @ [s]"
  by (simp add: print_def)

lemma process_image_loaded:
  assumes "imread cv w path_in IMREAD_COLOR = Some img"
    and "unsharp_mask cv (bilateral_denoise cv img 9 75 75) (Finite 1) 3 = Inr sharpened"
  shows "process_image cv path_in path_out w =
     (let out_path = join path_out (''result_'' @ fst (splitext (basename path_in)) @ ''.png'')
      in case imwrite cv (print (read_message path_in (cols img) (rows img)) w) out_path sharpened of
           (Inl e, w2) \<Rightarrow> (Inl e, w2)
         | (Inr ok, w2) \<Rightarrow> (Inr (), print (done_message out_path) w2))"
  using assms imread_isfile [OF assms(1)] by (simp add: process_image_def Let_def)

lemma process_image_missing:
  "\<not> isfile w path_in \<Longrightarrow>
   process_image cv path_in path_out w = (Inl (FileNotFoundError (not_found_message path_in)), w)"
  by (simp add: process_image_def)

lemma process_image_unreadable:
  "isfile w path_in \<Longrightarrow> imread cv w path_in IMREAD_COLOR = None \<Longrightarrow>
   process_image cv path_in path_out w = (Inl (ValueError unreadable_message), w)"
  by (simp add: process_image_def)

lemma process_image_sharpener_raises:
  assumes "imread cv w path_in IMREAD_COLOR = Some img"
    and "unsharp_mask cv (bilateral_denoise cv img 9 75 75) (Finite 1) 3 = Inl e"
  shows "process_image cv path_in path_out w =
           (Inl e, print (read_message path_in (cols img) (rows img)) w)"
  using assms imread_isfile [OF assms(1)] by (simp add: process_image_def Let_def)

text \<open>
  When the output directory cannot be created the script ends with status 1 before
  it prints anything.
\<close>

lemma main_makedirs_raises:
  "mkdir_error w (OUTPUT_DIR base_dir) = Some e \<Longrightarrow> main cv base_dir w = (1, w)"
  by (simp add: main_def makedirs_def)

lemma main_after_makedirs:
  "mkdir_error w (OUTPUT_DIR base_dir) = None \<Longrightarrow>
   main cv base_dir w =
     (case process_image cv (INPUT_PATH base_dir) (OUTPUT_DIR base_dir)
             (print ''--- HelloImageProject - proses mulai ---'' w) of
        (Inl e, w') \<Rightarrow> (1, w')
      | (Inr u', w') \<Rightarrow> (0, w'))"
  by (simp add: main_def makedirs_def)

lemma length_to_color: "length (data (to_color d)) = 3 * length (pixels d)"
proof -
  have "length (concat (map bgr_of ps)) = 3 * length ps" for ps
    by (induction ps) (auto simp: bgr_of_def split: sample.splits)
  then show ?thesis
    by (simp add: to_color_def)
qed

text \<open>
  Whatever the library, once the image is loaded and encoded, a path that cannot be
  written changes nothing in what \<open>process_image\<close> returns and prints.
\<close>

lemma write_failure_not_noticed:
  assumes "imread cv w path_in IMREAD_COLOR = Some img"
    and "unsharp_mask cv (bilateral_denoise cv img 9 75 75) (Finite 1) 3 = Inr sharpened"
    and "out_path = join path_out (''result_'' @ fst (splitext (basename path_in)) @ ''.png'')"
    and "encode cv out_path sharpened = Inr bytes"
    and "\<not> writable w out_path"
  shows "process_image cv path_in path_out w =
           (Inr (), print (done_message out_path)
                      (print (read_message path_in (cols img) (rows img)) w))"
  using assms(3-5) by (simp add: process_image_loaded [OF assms(1,2)] imwrite_def Let_def)

subsection \<open>The small instance, evaluated\<close>

lemma example_imread:
  assumes "files w ''/app/images/img-3.jpg'' = Some [10, 200, 120]"
  shows "imread example_cv w ''/app/images/img-3.jpg'' IMREAD_COLOR = Some example_loaded"
  using assms
  by (simp add: imread_def example_cv_def to_color_def bgr_of_def example_loaded_def)

lemma example_blurred:
  "GaussianBlur example_cv (bilateral_denoise example_cv example_loaded 9 75 75) (0, 0) 3 3
     = Inr \<lparr>rows = 1, cols = 3, chans = 3,
            data = [100, 100, 100, 100, 100, 100, 100, 100, 100]\<rparr>"
  "GaussianBlur other_cv (bilateral_denoise other_cv example_loaded 9 75 75) (0, 0) 3 3
     = Inr \<lparr>rows = 1, cols = 3, chans = 3,
            data = [100, 100, 100, 100, 100, 100, 100, 100, 100]\<rparr>"
  "GaussianBlur example_cv example_image (0, 0) 3 3
     = Inr \<lparr>rows = 1, cols = 2, chans = 3, data = [100, 100, 100, 100, 100, 100]\<rparr>"
  by code_simp+

lemma example_sharpened:
  "unsharp_mask example_cv (bilateral_denoise example_cv example_loaded 9 75 75) (Finite 1) 3
     = Inr \<lparr>rows = 1, cols = 3, chans = 3, data = [0, 0, 0, 255, 255, 255, 140, 140, 140]\<rparr>"
  unfolding unsharp_mask_eq [OF example_blurred(1)] sharpener_spec_amount_one by code_simp

lemma example_out_path:
  "join ''/app/output'' (''result_'' @ fst (splitext (basename ''/app/images/img-3.jpg'')) @ ''.png'')
     = ''/app/output/result_img-3.png''"
  by code_simp

lemma example_run:
  assumes "files w ''/app/images/img-3.jpg'' = Some [10, 200, 120]"
  shows "process_image example_cv ''/app/images/img-3.jpg'' ''/app/output'' w =
     (Inr (),
      print (done_message ''/app/output/result_img-3.png'')
        (if writable w ''/app/output/result_img-3.png''
         then (print (read_message ''/app/images/img-3.jpg'' 3 1) w)
                \<lparr>files := (files w)(''/app/output/result_img-3.png''
                            \<mapsto> [0, 0, 0, 255, 255, 255, 140, 140, 140])\<rparr>
         else print (read_message ''/app/images/img-3.jpg'' 3 1) w))"
  unfolding process_image_loaded [OF example_imread [OF assms] example_sharpened] example_out_path
  by (simp add: imwrite_def example_cv_def example_loaded_def Let_def)

lemma example_files:
  "files example_world ''/app/images/img-3.jpg'' = Some [10, 200, 120]"
  "files readonly_world ''/app/images/img-3.jpg'' = Some [10, 200, 120]"
  "files other_world ''/app/images/img-3.jpg'' = Some [10, 200, 120]"
  by (simp_all add: example_world_def readonly_world_def other_world_def)

lemma example_blocked:
  "main example_cv ''/app'' blocked_world = (1, blocked_world)"
  by (rule main_makedirs_raises [of _ _ "OSError ''/app/output''"])
     (simp add: blocked_world_def OUTPUT_DIR_def join_def)

section \<open>The properties of the specification\<close>

text \<open>
  C1. For every image of at least one row and one column that the Loader decodes
  from the input file, the denoiser is called on it with diameter 9, colour tolerance
  75 and spatial tolerance 75, the sharpener is called on the denoised grid with
  amount 1.0 and radius 3, both succeed, and the grid handed to \<open>imwrite\<close> is the
  sharpener's result: nothing else happens to the image between load and write.
\<close>

theorem pipeline_is_sharpen_after_denoise:
  assumes "imread cv w path_in IMREAD_COLOR = Some img"
    and "0 < rows img" and "0 < cols img"
  shows "\<exists>sharpened.
     unsharp_mask cv (bilateral_denoise cv img 9 75 75) (Finite 1) 3 = Inr sharpened \<and>
     process_image cv path_in path_out w =
       (let out_path = join path_out (''result_'' @ fst (splitext (basename path_in)) @ ''.png'')
        in case imwrite cv (print (read_message path_in (cols img) (rows img)) w) out_path sharpened of
             (Inl e, w2) \<Rightarrow> (Inl e, w2)
           | (Inr ok, w2) \<Rightarrow> (Inr (), print (done_message out_path) w2)) \<and>
     (\<forall>out_path bytes.
        out_path = join path_out (''result_'' @ fst (splitext (basename path_in)) @ ''.png'') \<and>
        encode cv out_path sharpened = Inr bytes \<and> writable w out_path \<longrightarrow>
        files (snd (process_image cv path_in path_out w)) out_path = Some bytes)"
proof -
  have "0 < rows (bilateral_denoise cv img 9 75 75)" "0 < cols (bilateral_denoise cv img 9 75 75)"
    using assms(2,3) by (simp_all add: bilateral_denoise_def bilateralFilter_def)
  then obtain sharpened where
    s: "unsharp_mask cv (bilateral_denoise cv img 9 75 75) (Finite 1) 3 = Inr sharpened"
    using unsharp_mask_returns [of "bilateral_denoise cv img 9 75 75" 3 cv "Finite 1"] by auto
  note run = process_image_loaded [OF assms(1) s, of path_out]
  have "files (snd (process_image cv path_in path_out w)) out_path = Some bytes"
    if "out_path = join path_out (''result_'' @ fst (splitext (basename path_in)) @ ''.png'')"
      and "encode cv out_path sharpened = Inr bytes" and "writable w out_path"
    for out_path bytes
    using that by (simp add: run imwrite_def Let_def)
  then show ?thesis
    using s run by blast
qed

theorem pipeline_is_sharpen_after_denoise_witness:
  "imread example_cv example_world ''/app/images/img-3.jpg'' IMREAD_COLOR = Some example_loaded \<and>
   0 < rows example_loaded \<and> 0 < cols example_loaded \<and>
   unsharp_mask example_cv (bilateral_denoise example_cv example_loaded 9 75 75) (Finite 1) 3
     = Inr \<lparr>rows = 1, cols = 3, chans = 3, data = [0, 0, 0, 255, 255, 255, 140, 140, 140]\<rparr> \<and>
   encode example_cv ''/app/output/result_img-3.png''
       \<lparr>rows = 1, cols = 3, chans = 3, data = [0, 0, 0, 255, 255, 255, 140, 140, 140]\<rparr>
     = Inr [0, 0, 0, 255, 255, 255, 140, 140, 140] \<and>
   writable example_world ''/app/output/result_img-3.png'' \<and>
   files (snd (process_image example_cv ''/app/images/img-3.jpg'' ''/app/output'' example_world))
     ''/app/output/result_img-3.png'' = Some [0, 0, 0, 255, 255, 255, 140, 140, 140]"
proof -
  have h: "imread example_cv example_world ''/app/images/img-3.jpg'' IMREAD_COLOR = Some example_loaded"
    using example_files(1) by (rule example_imread)
  have e: "encode example_cv ''/app/output/result_img-3.png''
       \<lparr>rows = 1, cols = 3, chans = 3, data = [0, 0, 0, 255, 255, 255, 140, 140, 140]\<rparr>
     = Inr [0, 0, 0, 255, 255, 255, 140, 140, 140]"
    by (simp add: example_cv_def)
  have wr: "writable example_world ''/app/output/result_img-3.png''"
    by (simp add: example_world_def)
  have ne: "0 < rows example_loaded" "0 < cols example_loaded"
    by (simp_all add: example_loaded_def)
  from pipeline_is_sharpen_after_denoise [OF h ne, of "''/app/output''"]
  obtain sharpened where
    s: "unsharp_mask example_cv (bilateral_denoise example_cv example_loaded 9 75 75) (Finite 1) 3
          = Inr sharpened"
    and f: "\<And>out_path bytes.
        out_path = join ''/app/output''
                     (''result_'' @ fst (splitext (basename ''/app/images/img-3.jpg'')) @ ''.png'') \<Longrightarrow>
        encode example_cv out_path sharpened = Inr bytes \<Longrightarrow> writable example_world out_path \<Longrightarrow>
        files (snd (process_image example_cv ''/app/images/img-3.jpg'' ''/app/output'' example_world))
          out_path = Some bytes"
    by blast
  from s have sh: "sharpened
      = \<lparr>rows = 1, cols = 3, chans = 3, data = [0, 0, 0, 255, 255, 255, 140, 140, 140]\<rparr>"
    by (simp add: example_sharpened)
  have "files (snd (process_image example_cv ''/app/images/img-3.jpg'' ''/app/output'' example_world))
     ''/app/output/result_img-3.png'' = Some [0, 0, 0, 255, 255, 255, 140, 140, 140]"
    using f [OF example_out_path [symmetric]] e wr unfolding sh by blast
  with h ne e wr example_sharpened show ?thesis
    by blast
qed

text \<open>
  C2. For every 8-bit image, every row, column and channel, and every positive
  radius, the Gaussian blur with kernel size \<open>(0, 0)\<close> and deviation \<open>radius\<close> in
  both axes returns, and the Sharpener returns an image of the same shape whose
  element is \<open>sharpener_spec\<close> of the original element and of the blurred element:
  original plus amount times (original minus blurred) in \<^verbatim>\<open>float32\<close>, clipped to
  \<open>[0, 255]\<close> and converted to 8 bits.
\<close>

theorem unsharp_mask_per_element:
  assumes "well_shaped img" and "r < rows img" and "c < cols img" and "k < chans img"
    and "0 < radius"
  shows "\<exists>blurred out.
     GaussianBlur cv img (0, 0) radius radius = Inr blurred \<and>
     unsharp_mask cv img amount radius = Inr out \<and> shape out = shape img \<and>
     px out r c k =
       sharpener_spec (cast_undefined cv) amount (px img r c k) (px blurred r c k)"
proof -
  have "0 < rows img" "0 < cols img"
    using assms(2,3) by simp_all
  then obtain b where b: "GaussianBlur cv img (0, 0) radius radius = Inr b"
    using GaussianBlur_returns [of img radius cv] assms(5) by blast
  let ?i = "(r * cols img + c) * chans img + k"
  have i: "?i < length (data img)"
    using assms(1-4) index_in_range [of r "rows img" c "cols img" k "chans img"]
    by (simp add: well_shaped_def)
  then have ib: "?i < length (data b)"
    by (simp add: GaussianBlur_Inr(4) [OF b])
  have "unsharp_mask cv img amount radius =
      Inr \<lparr>rows = rows img, cols = cols img, chans = chans img,
           data = map2 (sharpener_spec (cast_undefined cv) amount) (data img) (data b)\<rparr> \<and>
    shape \<lparr>rows = rows img, cols = cols img, chans = chans img,
           data = map2 (sharpener_spec (cast_undefined cv) amount) (data img) (data b)\<rparr>
      = shape img \<and>
    px \<lparr>rows = rows img, cols = cols img, chans = chans img,
        data = map2 (sharpener_spec (cast_undefined cv) amount) (data img) (data b)\<rparr> r c k
      = sharpener_spec (cast_undefined cv) amount (px img r c k) (px b r c k)"
    using i ib by (simp add: unsharp_mask_eq [OF b] shape_def px_def GaussianBlur_Inr(2,3) [OF b])
  with b show ?thesis
    by blast
qed

theorem unsharp_mask_per_element_witness:
  "well_shaped example_image \<and> (0 :: nat) < rows example_image \<and>
   (0 :: nat) < cols example_image \<and> (1 :: nat) < chans example_image \<and> (0 :: rat) < 3 \<and>
   (\<exists>blurred out.
      GaussianBlur example_cv example_image (0, 0) 3 3 = Inr blurred \<and>
      unsharp_mask example_cv example_image (Finite (3 / 2)) 3 = Inr out \<and>
      shape out = shape example_image \<and>
      px out 0 0 1 =
        sharpener_spec (cast_undefined example_cv) (Finite (3 / 2)) (px example_image 0 0 1)
          (px blurred 0 0 1)) \<and>
   sharpener_spec (cast_undefined example_cv) (Finite (3 / 2)) 200 100 = 255 \<and>
   sharpener_spec (cast_undefined example_cv) (Finite (1 / 10)) 10 100 = 1"
proof -
  have h: "well_shaped example_image" "(0 :: nat) < rows example_image"
    "(0 :: nat) < cols example_image" "(1 :: nat) < chans example_image" "(0 :: rat) < 3"
    by (simp_all add: well_shaped_def example_image_def)
  have c: "sharpener_spec (cast_undefined example_cv) (Finite (3 / 2)) 200 100 = 255"
    "sharpener_spec (cast_undefined example_cv) (Finite (1 / 10)) 10 100 = 1"
    by code_simp+
  from unsharp_mask_per_element [OF h, of example_cv "Finite (3 / 2)"] h c show ?thesis
    by blast
qed

text \<open>
  C3. With amount 0 and any positive radius, on every image of at least one row and
  one column, the Sharpener returns its input: every element is unchanged.
\<close>

theorem unsharp_mask_amount_zero:
  assumes "0 < rows img" and "0 < cols img" and "0 < radius"
  shows "unsharp_mask cv img (Finite 0) radius = Inr img"
proof -
  obtain b where b: "GaussianBlur cv img (0, 0) radius radius = Inr b"
    using GaussianBlur_returns [OF assms] by blast
  have "length (data img) = length (data b)"
    by (simp add: GaussianBlur_Inr(4) [OF b])
  then have "map2 (\<lambda>x y. x) (data img) (data b) = data img"
    by (rule map2_first)
  then show ?thesis
    by (simp add: unsharp_mask_eq [OF b] sharpener_spec_amount_zero)
qed

theorem unsharp_mask_amount_zero_witness:
  "0 < rows square_image \<and> 0 < cols square_image \<and> (0 :: rat) < 3 \<and>
   unsharp_mask example_cv square_image (Finite 0) 3 = Inr square_image"
proof -
  have h: "0 < rows square_image" "0 < cols square_image" "(0 :: rat) < 3"
    by (simp_all add: square_image_def)
  from unsharp_mask_amount_zero [OF h, of example_cv] h show ?thesis
    by blast
qed

text \<open>
  With amount 0 and radius 0, or radius \<open>-1\<close>, the Sharpener does not return its
  input: the blur is asked to derive its kernel from a deviation that is not
  positive, and \<^verbatim>\<open>cv2.error\<close> escapes.
\<close>

theorem unsharp_mask_amount_zero_radius_zero:
  "unsharp_mask example_cv square_image (Finite 0) 0 \<noteq> Inr square_image \<and>
   unsharp_mask example_cv square_image (Finite 0) 0
     = Inl (CvError ''Assertion failed: ksize is positive and odd'') \<and>
   unsharp_mask example_cv square_image (Finite 0) (- 1)
     = Inl (CvError ''Assertion failed: ksize is positive and odd'')"
proof -
  have "GaussianBlur example_cv square_image (0, 0) 0 0
          = Inl (CvError ''Assertion failed: ksize is positive and odd'')"
    "GaussianBlur example_cv square_image (0, 0) (- 1) (- 1)
          = Inl (CvError ''Assertion failed: ksize is positive and odd'')"
    by (simp_all add: GaussianBlur_def square_image_def kernel_ok_def)
  then show ?thesis
    by (simp add: unsharp_mask_raises)
qed

text \<open>
  C4. For every well-shaped 8-bit image of at least one row and one column, and a
  positive radius, the Denoiser's result and the Sharpener's result have the rows,
  columns and channels of the input and hold values between 0 and 255, and so has
  the Sharpener's result on the Denoiser's result.
\<close>

theorem shape_and_range_preserved:
  assumes "well_shaped img" and "0 < rows img" and "0 < cols img" and "0 < radius"
  shows "shape (bilateral_denoise cv img d sigma_color sigma_space) = shape img \<and>
         well_shaped (bilateral_denoise cv img d sigma_color sigma_space) \<and>
         (\<forall>v \<in> set (data (bilateral_denoise cv img d sigma_color sigma_space)). unat v \<le> 255) \<and>
         (\<exists>out. unsharp_mask cv img amount radius = Inr out \<and> shape out = shape img \<and>
                well_shaped out \<and> (\<forall>v \<in> set (data out). unat v \<le> 255)) \<and>
         (\<exists>out. unsharp_mask cv (bilateral_denoise cv img d sigma_color sigma_space) amount radius
                  = Inr out \<and> shape out = shape img \<and> well_shaped out)"
proof -
  note u8 = u8_range
  have sharp: "\<exists>out. unsharp_mask cv a amount radius = Inr out \<and> shape out = shape a \<and>
      (well_shaped a \<longrightarrow> well_shaped out)" if a: "0 < rows a" "0 < cols a" for a
  proof -
    obtain b where b: "GaussianBlur cv a (0, 0) radius radius = Inr b"
      using GaussianBlur_returns [OF a assms(4)] by blast
    show ?thesis
      by (simp add: unsharp_mask_eq [OF b] shape_def well_shaped_def GaussianBlur_Inr(4) [OF b])
  qed
  have den: "shape (bilateral_denoise cv img d sigma_color sigma_space) = shape img"
    "well_shaped (bilateral_denoise cv img d sigma_color sigma_space)"
    "0 < rows (bilateral_denoise cv img d sigma_color sigma_space)"
    "0 < cols (bilateral_denoise cv img d sigma_color sigma_space)"
    using assms(1-3)
    by (simp_all add: bilateral_denoise_def bilateralFilter_def shape_def well_shaped_def)
  show ?thesis
    using den(1,2) u8 sharp [OF assms(2,3)] sharp [OF den(3,4)] assms(1)
    by auto
qed

theorem shape_and_range_preserved_witness:
  "well_shaped example_image \<and> 0 < rows example_image \<and> 0 < cols example_image \<and>
   (0 :: rat) < 3 \<and>
   shape example_image = (1, 2, 3) \<and>
   shape (bilateral_denoise example_cv example_image 9 75 75) = (1, 2, 3) \<and>
   well_shaped (bilateral_denoise example_cv example_image 9 75 75) \<and>
   (\<exists>out. unsharp_mask example_cv example_image (Finite 1) 3 = Inr out \<and>
          shape out = (1, 2, 3) \<and> well_shaped out \<and>
          (\<forall>v \<in> set (data out). unat v \<le> 255)) \<and>
   (\<exists>out. unsharp_mask example_cv (bilateral_denoise example_cv example_image 9 75 75) (Finite 1) 3
            = Inr out \<and> shape out = (1, 2, 3) \<and> well_shaped out) \<and>
   unsharp_mask example_cv example_image (Finite 1) 3
     = Inr \<lparr>rows = 1, cols = 2, chans = 3, data = [0, 255, 140, 100, 0, 255]\<rparr>"
proof -
  have h: "well_shaped example_image" "0 < rows example_image" "0 < cols example_image"
    "(0 :: rat) < 3"
    by (simp_all add: well_shaped_def example_image_def)
  have s: "shape example_image = (1, 2, 3)"
    by (simp add: shape_def example_image_def)
  have c: "unsharp_mask example_cv example_image (Finite 1) 3
     = Inr \<lparr>rows = 1, cols = 2, chans = 3, data = [0, 255, 140, 100, 0, 255]\<rparr>"
    unfolding unsharp_mask_eq [OF example_blurred(3)] sharpener_spec_amount_one by code_simp
  from shape_and_range_preserved [OF h, of example_cv 9 75 75 "Finite 1"] h s c show ?thesis
    by auto
qed

text \<open>
  C5. When the input path is not an existing file, \<open>process_image\<close> raises
  \<^verbatim>\<open>FileNotFoundError\<close> and leaves the files and the console as they were, whatever
  the library would decode, filter or encode: no later step has run.
\<close>

theorem missing_input_raises:
  assumes "\<not> isfile w path_in"
  shows "process_image cv path_in path_out w =
           (Inl (FileNotFoundError (not_found_message path_in)), w)"
  using assms by (rule process_image_missing)

theorem missing_input_raises_witness:
  "\<not> isfile example_world ''/app/images/missing.jpg'' \<and>
   process_image example_cv ''/app/images/missing.jpg'' ''/app/output'' example_world =
     (Inl (FileNotFoundError ''File input tidak ditemukan: /app/images/missing.jpg''), example_world)"
proof -
  have h: "\<not> isfile example_world ''/app/images/missing.jpg''"
    by (simp add: isfile_def example_world_def)
  from missing_input_raises [OF h, of example_cv "''/app/output''"] h show ?thesis
    by (simp add: not_found_message_def)
qed

text \<open>
  C6. When the input file exists and the decoder returns no image for its bytes,
  \<open>process_image\<close> raises \<^verbatim>\<open>ValueError\<close> and leaves the files and the console as
  they were: nothing is denoised, sharpened or written.
\<close>

theorem undecodable_input_raises:
  assumes "files w path_in = Some bytes" and "decode cv bytes = None"
  shows "process_image cv path_in path_out w = (Inl (ValueError unreadable_message), w)"
  using assms by (simp add: process_image_def isfile_def imread_def)

theorem undecodable_input_raises_witness:
  "files example_world ''/app/images/empty.jpg'' = Some [] \<and> decode example_cv [] = None \<and>
   process_image example_cv ''/app/images/empty.jpg'' ''/app/output'' example_world =
     (Inl (ValueError unreadable_message), example_world)"
proof -
  have h: "files example_world ''/app/images/empty.jpg'' = Some []" "decode example_cv [] = None"
    by (simp_all add: example_world_def example_cv_def)
  from undecodable_input_raises [OF h, of "''/app/output''"] h show ?thesis
    by simp
qed

text \<open>
  C7. The output name is \<open>result_\<close>, then the base name of the input path without
  its extension, then \<open>.png\<close>. Base name and extension are those of \<^verbatim>\<open>os.path\<close>:
  the base name is what follows the last separator of the path, stem and extension
  make up the base name, and the extension is empty or starts at the last dot. The name has no separator, and it is the base name of the output path,
  which is the output directory followed by the name, with a separator between them
  unless the directory is empty or already ends in one. No file but the one at this
  path changes, and a run that returns normally with the path writable leaves a file
  there.
\<close>

theorem output_file_name:
  "let base = fst (splitext (basename path_in));
       ext = snd (splitext (basename path_in));
       out_name = ''result_'' @ base @ ''.png'';
       out_path = join path_out out_name;
       run = process_image cv path_in path_out w
   in (\<exists>dir. path_in = dir @ basename path_in \<and> (dir = [] \<or> last dir = CHR ''/'')) \<and>
      CHR ''/'' \<notin> set (basename path_in) \<and>
      base @ ext = basename path_in \<and>
      (ext = [] \<or> hd ext = CHR ''.'' \<and> CHR ''.'' \<notin> set (tl ext)) \<and>
      CHR ''/'' \<notin> set out_name \<and>
      basename out_path = out_name \<and>
      (out_path = path_out @ out_name \<or> out_path = path_out @ ''/'' @ out_name) \<and>
      (\<forall>p. files (snd run) p \<noteq> files w p \<longrightarrow> p = out_path) \<and>
      (fst run = Inr () \<and> writable w out_path \<longrightarrow> files (snd run) out_path \<noteq> None)"
proof -
  define base where "base = fst (splitext (basename path_in))"
  define ext where "ext = snd (splitext (basename path_in))"
  define out_name where "out_name = ''result_'' @ base @ ''.png''"
  define out_path where "out_path = join path_out out_name"
  define run where "run = process_image cv path_in path_out w"
  have 1: "base @ ext = basename path_in"
    unfolding base_def ext_def by (rule splitext_concat)
  have 2: "ext = [] \<or> hd ext = CHR ''.'' \<and> CHR ''.'' \<notin> set (tl ext)"
    unfolding ext_def by (rule splitext_extension)
  have "CHR ''/'' \<notin> set base"
    using splitext_stem_subset [of "basename path_in"] basename_no_sep [of path_in]
    unfolding base_def by blast
  then have 3: "CHR ''/'' \<notin> set out_name"
    by (simp add: out_name_def)
  have 4: "basename out_path = out_name"
    unfolding out_path_def using 3 by (rule basename_join)
  have 5: "out_path = path_out @ out_name \<or> out_path = path_out @ ''/'' @ out_name"
    unfolding out_path_def using 3 by (rule join_cases)
  have 6: "\<forall>p. files (snd run) p \<noteq> files w p \<longrightarrow> p = out_path"
    unfolding run_def out_path_def out_name_def base_def
    by (auto simp: process_image_def imwrite_def Let_def
          split: option.splits sum.splits if_splits)
  have 7: "fst run = Inr () \<and> writable w out_path \<longrightarrow> files (snd run) out_path \<noteq> None"
    unfolding run_def out_path_def out_name_def base_def
    by (auto simp: process_image_def imwrite_def Let_def
          split: option.splits sum.splits if_splits)
  show ?thesis
    using basename_suffix [of path_in] basename_no_sep [of path_in] 1 2 3 4 5 6 7
    unfolding Let_def base_def ext_def out_name_def out_path_def run_def by blast
qed

theorem output_file_name_witness:
  "join ''/app/output'' (''result_'' @ fst (splitext (basename ''/app/images/img-3.jpg'')) @ ''.png'')
     = ''/app/output/result_img-3.png'' \<and>
   fst (process_image example_cv ''/app/images/img-3.jpg'' ''/app/output'' example_world) = Inr () \<and>
   writable example_world ''/app/output/result_img-3.png'' \<and>
   files (snd (process_image example_cv ''/app/images/img-3.jpg'' ''/app/output'' example_world))
     ''/app/output/result_img-3.png'' \<noteq> None \<and>
   files (snd (process_image example_cv ''/app/images/img-3.jpg'' ''/app/output'' example_world))
     ''/app/images/img-3.jpg'' = files example_world ''/app/images/img-3.jpg''"
proof -
  have r: "fst (process_image example_cv ''/app/images/img-3.jpg'' ''/app/output'' example_world) = Inr ()"
    by (simp add: example_run [OF example_files(1)])
  have wr: "writable example_world ''/app/output/result_img-3.png''"
    by (simp add: example_world_def)
  have d: "''/app/images/img-3.jpg'' \<noteq> ''/app/output/result_img-3.png''"
    by simp
  from output_file_name [of "''/app/images/img-3.jpg''" "''/app/output''" example_cv example_world]
    example_out_path r wr d
  show ?thesis
    by (auto simp: Let_def)
qed

text \<open>
  C8. A write that fails is not fatal. In the read-only file system \<open>imwrite\<close>
  returns \<^verbatim>\<open>False\<close> for the output path; \<open>process_image\<close> drops that value, returns
  normally, leaves no output file, and its last printed line reports the output path
  as saved; the script ends with status 0.
\<close>

theorem failed_write_reported_as_success:
  "fst (imwrite example_cv readonly_world ''/app/output/result_img-3.png''
          \<lparr>rows = 1, cols = 3, chans = 3, data = [0, 0, 0, 255, 255, 255, 140, 140, 140]\<rparr>)
     = Inr False \<and>
   fst (process_image example_cv ''/app/images/img-3.jpg'' ''/app/output'' readonly_world) = Inr () \<and>
   files (snd (process_image example_cv ''/app/images/img-3.jpg'' ''/app/output'' readonly_world))
     ''/app/output/result_img-3.png'' = None \<and>
   last (stdout (snd (process_image example_cv ''/app/images/img-3.jpg'' ''/app/output''
                        readonly_world)))
     = ''Selesai. Hasil disimpan di: /app/output/result_img-3.png'' \<and>
   fst (main example_cv ''/app'' readonly_world) = 0"
proof -
  have p: "INPUT_PATH ''/app'' = ''/app/images/img-3.jpg''" "OUTPUT_DIR ''/app'' = ''/app/output''"
    by (simp_all add: INPUT_PATH_def IMAGES_DIR_def INPUT_IMAGE_NAME_def OUTPUT_DIR_def join_def)
  have f: "files (print s readonly_world) ''/app/images/img-3.jpg'' = Some [10, 200, 120]" for s
    by (simp add: example_files)
  have w: "\<not> writable readonly_world p" for p
    by (simp add: readonly_world_def)
  have 1: "fst (imwrite example_cv readonly_world ''/app/output/result_img-3.png''
          \<lparr>rows = 1, cols = 3, chans = 3, data = [0, 0, 0, 255, 255, 255, 140, 140, 140]\<rparr>)
     = Inr False"
    by (simp add: imwrite_def example_cv_def w)
  have 2: "fst (process_image example_cv ''/app/images/img-3.jpg'' ''/app/output'' readonly_world)
     = Inr ()"
    by (simp add: example_run [OF example_files(2)])
  have 3: "files (snd (process_image example_cv ''/app/images/img-3.jpg'' ''/app/output''
                         readonly_world)) ''/app/output/result_img-3.png'' = None"
    by (simp add: example_run [OF example_files(2)] w) (simp add: readonly_world_def example_world_def)
  have 4: "last (stdout (snd (process_image example_cv ''/app/images/img-3.jpg'' ''/app/output''
                        readonly_world)))
     = ''Selesai. Hasil disimpan di: /app/output/result_img-3.png''"
    by (simp add: example_run [OF example_files(2)] done_message_def)
  have m: "mkdir_error readonly_world (OUTPUT_DIR ''/app'') = None"
    by (simp add: readonly_world_def example_world_def)
  have 5: "fst (main example_cv ''/app'' readonly_world) = 0"
    by (simp add: main_after_makedirs [OF m] p example_run [OF f])
  from 1 2 3 4 5 show ?thesis
    by blast
qed

text \<open>
  C9. Take two runs on the same paths, in two file systems that hold the same bytes
  at the input path, with two libraries whose decoder, bilateral filter, Gaussian blur
  and encoder are the same functions. The other files, the permissions, the console
  and the conversion that C leaves undefined may all differ. Both runs end alike
  (both return or both raise the same exception), and there is one byte string such
  that each run either leaves the files as they were or puts exactly that byte string
  at the output path; a run that returns where the output path can be written has put
  it there. So the output files that the two runs produce are byte-identical.
\<close>

theorem same_bytes_same_output:
  assumes "files w1 path_in = files w2 path_in"
    and "decode cv1 = decode cv2"
    and "bilateral_value cv1 = bilateral_value cv2"
    and "gaussian_value cv1 = gaussian_value cv2"
    and "encode cv1 = encode cv2"
  shows "fst (process_image cv1 path_in path_out w1) = fst (process_image cv2 path_in path_out w2) \<and>
     (\<exists>bytes.
        (files (snd (process_image cv1 path_in path_out w1)) = files w1 \<or>
         files (snd (process_image cv1 path_in path_out w1))
           = (files w1)(join path_out (''result_'' @ fst (splitext (basename path_in)) @ ''.png'')
                          \<mapsto> bytes)) \<and>
        (files (snd (process_image cv2 path_in path_out w2)) = files w2 \<or>
         files (snd (process_image cv2 path_in path_out w2))
           = (files w2)(join path_out (''result_'' @ fst (splitext (basename path_in)) @ ''.png'')
                          \<mapsto> bytes)) \<and>
        (fst (process_image cv1 path_in path_out w1) = Inr () \<and>
         writable w1 (join path_out (''result_'' @ fst (splitext (basename path_in)) @ ''.png''))
         \<longrightarrow>
         files (snd (process_image cv1 path_in path_out w1))
           (join path_out (''result_'' @ fst (splitext (basename path_in)) @ ''.png'')) = Some bytes) \<and>
        (fst (process_image cv2 path_in path_out w2) = Inr () \<and>
         writable w2 (join path_out (''result_'' @ fst (splitext (basename path_in)) @ ''.png''))
         \<longrightarrow>
         files (snd (process_image cv2 path_in path_out w2))
           (join path_out (''result_'' @ fst (splitext (basename path_in)) @ ''.png'')) = Some bytes)) \<and>
     (\<forall>p. files (snd (process_image cv1 path_in path_out w1)) p \<noteq> files w1 p \<and>
          files (snd (process_image cv2 path_in path_out w2)) p \<noteq> files w2 p \<longrightarrow>
          files (snd (process_image cv1 path_in path_out w1)) p
            = files (snd (process_image cv2 path_in path_out w2)) p)"
proof -
  let ?out = "join path_out (''result_'' @ fst (splitext (basename path_in)) @ ''.png'')"
  let ?run1 = "process_image cv1 path_in path_out w1"
  let ?run2 = "process_image cv2 path_in path_out w2"
  have f: "isfile w1 path_in = isfile w2 path_in"
    using assms(1) by (simp add: isfile_def)
  have r: "imread cv1 w1 path_in IMREAD_COLOR = imread cv2 w2 path_in IMREAD_COLOR"
    using assms(1,2) by (simp add: imread_def split: option.splits)
  have d: "bilateral_denoise cv1 img 9 75 75 = bilateral_denoise cv2 img 9 75 75" for img
    using assms(3) by (simp add: bilateral_denoise_def bilateralFilter_def)
  have u: "unsharp_mask cv1 (bilateral_denoise cv1 img 9 75 75) (Finite 1) 3
         = unsharp_mask cv2 (bilateral_denoise cv2 img 9 75 75) (Finite 1) 3" for img
    unfolding d by (rule unsharp_mask_amount_one_cong [OF assms(4)])
  have unchanged: ?thesis
    if "?run1 = (Inl e, v1)" "?run2 = (Inl e, v2)" "files v1 = files w1" "files v2 = files w2"
    for e v1 v2
    using that by simp
  show ?thesis
  proof (cases "isfile w1 path_in")
    case False
    then show ?thesis
      using f
      by (intro unchanged [of "FileNotFoundError (not_found_message path_in)" w1 w2])
         (simp_all add: process_image_missing)
  next
    case True
    note isf = this
    show ?thesis
    proof (cases "imread cv1 w1 path_in IMREAD_COLOR")
      case None
      then show ?thesis
        using isf f r
        by (intro unchanged [of "ValueError unreadable_message" w1 w2])
           (simp_all add: process_image_unreadable)
    next
      case (Some img)
      note i1 = this
      have i2: "imread cv2 w2 path_in IMREAD_COLOR = Some img"
        using Some r by simp
      show ?thesis
      proof (cases "unsharp_mask cv1 (bilateral_denoise cv1 img 9 75 75) (Finite 1) 3")
        case (Inl e)
        then have "unsharp_mask cv2 (bilateral_denoise cv2 img 9 75 75) (Finite 1) 3 = Inl e"
          using u by simp
        then show ?thesis
          using Inl
          by (intro unchanged [of e "print (read_message path_in (cols img) (rows img)) w1"
                  "print (read_message path_in (cols img) (rows img)) w2"])
             (simp_all add: process_image_sharpener_raises [OF i1]
                process_image_sharpener_raises [OF i2])
      next
        case (Inr sharpened)
        note s1 = this
        have s2: "unsharp_mask cv2 (bilateral_denoise cv2 img 9 75 75) (Finite 1) 3 = Inr sharpened"
          using Inr u by simp
        note run1 = process_image_loaded [OF i1 s1, of path_out]
        note run2 = process_image_loaded [OF i2 s2, of path_out]
        show ?thesis
        proof (cases "encode cv1 ?out sharpened")
          case (Inl e)
          then have "encode cv2 ?out sharpened = Inl e"
            using assms(5) by simp
          then show ?thesis
            using Inl
            by (intro unchanged [of e "print (read_message path_in (cols img) (rows img)) w1"
                    "print (read_message path_in (cols img) (rows img)) w2"])
               (simp_all add: run1 run2 imwrite_def Let_def)
        next
          case (Inr bytes)
          then have e2: "encode cv2 ?out sharpened = Inr bytes"
            using assms(5) by simp
          have 1: "?run1 =
              (Inr (), print (done_message ?out)
                 (if writable w1 ?out
                  then (print (read_message path_in (cols img) (rows img)) w1)
                         \<lparr>files := (files w1)(?out \<mapsto> bytes)\<rparr>
                  else print (read_message path_in (cols img) (rows img)) w1))"
            using Inr by (simp add: run1 imwrite_def Let_def)
          have 2: "?run2 =
              (Inr (), print (done_message ?out)
                 (if writable w2 ?out
                  then (print (read_message path_in (cols img) (rows img)) w2)
                         \<lparr>files := (files w2)(?out \<mapsto> bytes)\<rparr>
                  else print (read_message path_in (cols img) (rows img)) w2))"
            using e2 by (simp add: run2 imwrite_def Let_def)
          have "\<exists>b.
             (files (snd ?run1) = files w1 \<or> files (snd ?run1) = (files w1)(?out \<mapsto> b)) \<and>
             (files (snd ?run2) = files w2 \<or> files (snd ?run2) = (files w2)(?out \<mapsto> b)) \<and>
             (fst ?run1 = Inr () \<and> writable w1 ?out \<longrightarrow> files (snd ?run1) ?out = Some b) \<and>
             (fst ?run2 = Inr () \<and> writable w2 ?out \<longrightarrow> files (snd ?run2) ?out = Some b)"
            unfolding 1 2 by (intro exI [of _ bytes]) simp
          moreover have "fst ?run1 = fst ?run2"
            unfolding 1 2 by simp
          moreover have "files (snd ?run1) p = files (snd ?run2) p"
            if "files (snd ?run1) p \<noteq> files w1 p" "files (snd ?run2) p \<noteq> files w2 p" for p
            using that unfolding 1 2 by (simp split: if_splits)
          ultimately show ?thesis
            by blast
        qed
      qed
    qed
  qed
qed

theorem same_bytes_same_output_witness:
  "files example_world ''/app/images/img-3.jpg'' = files other_world ''/app/images/img-3.jpg'' \<and>
   decode example_cv = decode other_cv \<and>
   bilateral_value example_cv = bilateral_value other_cv \<and>
   gaussian_value example_cv = gaussian_value other_cv \<and>
   encode example_cv = encode other_cv \<and>
   cast_undefined example_cv NaN \<noteq> cast_undefined other_cv NaN \<and>
   writable example_world ''/app/output/x.png'' \<noteq> writable other_world ''/app/output/x.png'' \<and>
   files example_world ''/app/notes.txt'' \<noteq> files other_world ''/app/notes.txt'' \<and>
   fst (process_image example_cv ''/app/images/img-3.jpg'' ''/app/output'' example_world)
     = fst (process_image other_cv ''/app/images/img-3.jpg'' ''/app/output'' other_world) \<and>
   files (snd (process_image example_cv ''/app/images/img-3.jpg'' ''/app/output'' example_world))
     ''/app/output/result_img-3.png'' = Some [0, 0, 0, 255, 255, 255, 140, 140, 140] \<and>
   files (snd (process_image other_cv ''/app/images/img-3.jpg'' ''/app/output'' other_world))
     ''/app/output/result_img-3.png'' = Some [0, 0, 0, 255, 255, 255, 140, 140, 140]"
proof -
  let ?run1 = "process_image example_cv ''/app/images/img-3.jpg'' ''/app/output'' example_world"
  let ?run2 = "process_image other_cv ''/app/images/img-3.jpg'' ''/app/output'' other_world"
  have h: "files example_world ''/app/images/img-3.jpg'' = files other_world ''/app/images/img-3.jpg''"
    "decode example_cv = decode other_cv"
    "bilateral_value example_cv = bilateral_value other_cv"
    "gaussian_value example_cv = gaussian_value other_cv"
    "encode example_cv = encode other_cv"
    by (simp_all add: other_world_def other_cv_def)
  have g: "cast_undefined example_cv NaN \<noteq> cast_undefined other_cv NaN"
    "writable example_world ''/app/output/x.png'' \<noteq> writable other_world ''/app/output/x.png''"
    "files example_world ''/app/notes.txt'' \<noteq> files other_world ''/app/notes.txt''"
    by (simp_all add: other_world_def other_cv_def example_cv_def example_world_def)
  have r1: "fst ?run1 = Inr ()"
    "files (snd ?run1) ''/app/output/result_img-3.png''
       = Some [0, 0, 0, 255, 255, 255, 140, 140, 140]"
    unfolding example_run [OF example_files(1)] by (simp_all add: example_world_def)
  have wr: "writable other_world ''/app/output/result_img-3.png''"
    by (simp add: other_world_def)
  from same_bytes_same_output [OF h, of "''/app/output''"]
  obtain bytes where
    e: "fst ?run1 = fst ?run2"
    and b1: "fst ?run1 = Inr () \<and> writable example_world ''/app/output/result_img-3.png'' \<longrightarrow>
          files (snd ?run1) ''/app/output/result_img-3.png'' = Some bytes"
    and b2: "fst ?run2 = Inr () \<and> writable other_world ''/app/output/result_img-3.png'' \<longrightarrow>
          files (snd ?run2) ''/app/output/result_img-3.png'' = Some bytes"
    unfolding example_out_path by blast
  have "writable example_world ''/app/output/result_img-3.png''"
    by (simp add: example_world_def)
  with b1 r1 have "bytes = [0, 0, 0, 255, 255, 255, 140, 140, 140]"
    by simp
  with b2 e r1(1) wr have "files (snd ?run2) ''/app/output/result_img-3.png''
       = Some [0, 0, 0, 255, 255, 255, 140, 140, 140]"
    by simp
  with h g e r1 show ?thesis
    by blast
qed

text \<open>
  C10. Whatever the codec decodes from the input file, grey, colour or colour with
  alpha, \<open>imread\<close> with \<^verbatim>\<open>IMREAD_COLOR\<close> yields an 8-bit image of three channels
  and of the decoded rows and columns (well-shaped when the decoder gave one sample
  for each position), and \<open>process_image\<close> goes on with it: it prints the line that
  reports the resolution.
\<close>

theorem forced_colour_decoding:
  assumes "files w path_in = Some bytes" and "decode cv bytes = Some d"
  shows "\<exists>img.
     imread cv w path_in IMREAD_COLOR = Some img \<and>
     chans img = 3 \<and> rows img = drows d \<and> cols img = dcols d \<and>
     length (data img) = 3 * length (pixels d) \<and>
     (length (pixels d) = drows d * dcols d \<longrightarrow> well_shaped img) \<and>
     (\<exists>rest. stdout (snd (process_image cv path_in path_out w))
               = stdout w @ read_message path_in (cols img) (rows img) # rest)"
proof -
  have r: "imread cv w path_in IMREAD_COLOR = Some (to_color d)"
    using assms by (simp add: imread_def)
  have "\<exists>rest. stdout (snd (process_image cv path_in path_out w))
          = stdout w @ read_message path_in (cols (to_color d)) (rows (to_color d)) # rest"
    using r imread_isfile [OF r]
    by (auto simp: process_image_def imwrite_def Let_def
          split: option.splits sum.splits if_splits)
  moreover have "length (pixels d) = drows d * dcols d \<longrightarrow> well_shaped (to_color d)"
    using length_to_color [of d] by (simp add: well_shaped_def to_color_def)
  ultimately show ?thesis
    using r length_to_color [of d] by (simp add: to_color_def)
qed

theorem forced_colour_decoding_witness:
  "files example_world ''/app/images/img-3.jpg'' = Some [10, 200, 120] \<and>
   decode example_cv [10, 200, 120] = Some example_decoded \<and>
   (\<exists>img.
      imread example_cv example_world ''/app/images/img-3.jpg'' IMREAD_COLOR = Some img \<and>
      chans img = 3 \<and> rows img = drows example_decoded \<and> cols img = dcols example_decoded \<and>
      length (data img) = 3 * length (pixels example_decoded) \<and>
      (length (pixels example_decoded) = drows example_decoded * dcols example_decoded
         \<longrightarrow> well_shaped img) \<and>
      (\<exists>rest. stdout (snd (process_image example_cv ''/app/images/img-3.jpg'' ''/app/output''
                              example_world))
                = stdout example_world
                    @ read_message ''/app/images/img-3.jpg'' (cols img) (rows img) # rest)) \<and>
   imread example_cv example_world ''/app/images/img-3.jpg'' IMREAD_COLOR = Some example_loaded \<and>
   to_color \<lparr>drows = 1, dcols = 2, pixels = [GrayPx 7, BGRAPx 1 2 3 4]\<rparr>
     = \<lparr>rows = 1, cols = 2, chans = 3, data = [7, 7, 7, 1, 2, 3]\<rparr>"
proof -
  have h: "files example_world ''/app/images/img-3.jpg'' = Some [10, 200, 120]"
    "decode example_cv [10, 200, 120] = Some example_decoded"
    by (simp_all add: example_world_def example_cv_def example_decoded_def)
  have c: "imread example_cv example_world ''/app/images/img-3.jpg'' IMREAD_COLOR = Some example_loaded"
    "to_color \<lparr>drows = 1, dcols = 2, pixels = [GrayPx 7, BGRAPx 1 2 3 4]\<rparr>
       = \<lparr>rows = 1, cols = 2, chans = 3, data = [7, 7, 7, 1, 2, 3]\<rparr>"
    using example_files(1) by (simp_all add: example_imread to_color_def bgr_of_def)
  from forced_colour_decoding [OF h, of "''/app/output''"] h c show ?thesis
    by blast
qed

end
